theory Spec2Isabelle
  imports Main
begin

section \<open>Python values, exceptions and dictionaries\<close>

text \<open>
  The values that flow through the registry and the queue handlers are the ones
  \<^verbatim>\<open>json.loads\<close> and the dict literals of the builders produce: \<^verbatim>\<open>None\<close>,
  booleans, integers, strings, lists and dictionaries with string keys. Floats are
  left out: nothing in the code below computes with one. A dictionary is an association
  list in insertion order, as Python keeps it. Values have value semantics: the builders
  construct a fresh tree of dict literals at every call, so no two places share an object.
\<close>

datatype pyval =
    PNone
  | PBool bool
  | PInt int
  | PStr string
  | PList "pyval list"
  | PDict "(string \<times> pyval) list"

text \<open>The exceptions the modelled code can raise or let through.\<close>

datatype exn =
    JSONDecodeError
  | UnicodeDecodeError
  | KeyError string
  | AttributeError
  | TypeError
  | ResourceNotFoundError
  | ServiceRequestError
  | HttpResponseError

text \<open>\<^verbatim>\<open>d[k] = v\<close>: an existing key keeps its position, a new key goes to the end.\<close>

fun dict_set :: "string \<Rightarrow> 'v \<Rightarrow> (string \<times> 'v) list \<Rightarrow> (string \<times> 'v) list" where
  "dict_set k v [] = [(k, v)]"
| "dict_set k v ((k', v') # d) = (if k' = k then (k, v) # d else (k', v') # dict_set k v d)"

text \<open>Removing a key (used to compare a message with the same message without a field).\<close>

fun dict_del :: "string \<Rightarrow> (string \<times> 'v) list \<Rightarrow> (string \<times> 'v) list" where
  "dict_del k [] = []"
| "dict_del k ((k', v') # d) = (if k' = k then dict_del k d else (k', v') # dict_del k d)"

text \<open>Truth value testing, as \<^verbatim>\<open>or\<close> and \<^verbatim>\<open>not\<close> apply it.\<close>

fun truthy :: "pyval \<Rightarrow> bool" where
  "truthy PNone = False"
| "truthy (PBool b) = b"
| "truthy (PInt i) = (i \<noteq> 0)"
| "truthy (PStr s) = (s \<noteq> [])"
| "truthy (PList xs) = (xs \<noteq> [])"
| "truthy (PDict d) = (d \<noteq> [])"

text \<open>
  \<^verbatim>\<open>a + b\<close>: lists and strings concatenate, integers (and booleans, which are
  integers) add, everything else raises \<^verbatim>\<open>TypeError\<close>.
\<close>

fun as_int :: "pyval \<Rightarrow> int option" where
  "as_int (PInt i) = Some i"
| "as_int (PBool b) = Some (if b then 1 else 0)"
| "as_int _ = None"

fun py_add :: "pyval \<Rightarrow> pyval \<Rightarrow> exn + pyval" where
  "py_add (PList xs) (PList ys) = Inr (PList (xs @ ys))"
| "py_add (PStr s) (PStr t) = Inr (PStr (s @ t))"
| "py_add a b =
     (case (as_int a, as_int b) of
        (Some i, Some j) \<Rightarrow> Inr (PInt (i + j))
      | _ \<Rightarrow> Inl TypeError)"

text \<open>\<^verbatim>\<open>obj.get(key, default)\<close>: only a dict has the method.\<close>

fun py_get :: "pyval \<Rightarrow> string \<Rightarrow> pyval \<Rightarrow> exn + pyval" where
  "py_get (PDict d) k dflt = Inr (case map_of d k of None \<Rightarrow> dflt | Some v \<Rightarrow> v)"
| "py_get _ k dflt = Inl AttributeError"

text \<open>
  \<^verbatim>\<open>for name in obj\<close>: a list yields its elements, a string its characters, a dict
  its keys; the other values are not iterable.
\<close>

fun py_iter :: "pyval \<Rightarrow> exn + pyval list" where
  "py_iter (PList xs) = Inr xs"
| "py_iter (PStr s) = Inr (map (\<lambda>c. PStr [c]) s)"
| "py_iter (PDict d) = Inr (map (\<lambda>kv. PStr (fst kv)) d)"
| "py_iter _ = Inl TypeError"

section \<open>Constants (configs/constants.py)\<close>

definition KV_FOUNDRY_PROJECT_ENDPOINT :: string where
  "KV_FOUNDRY_PROJECT_ENDPOINT = ''foundry-project-endpoint''"

definition KV_AI_SEARCH_CONNECTION_ID :: string where
  "KV_AI_SEARCH_CONNECTION_ID = ''ai-search-connection-id''"

definition KV_AI_SEARCH_INDEX_NAME :: string where
  "KV_AI_SEARCH_INDEX_NAME = ''ai-search-index-name''"

definition KV_MCP_CONNECTION_ID :: string where
  "KV_MCP_CONNECTION_ID = ''mcp-connection-id''"

definition AGENT_QUEUE_NAME :: string where
  "AGENT_QUEUE_NAME = ''agent-jobs''"

section \<open>The process: environment, state and diagnostics\<close>

datatype Credential = ManagedIdentityCredential string | DefaultAzureCredential

record SecretClient =
  vault_url :: string
  sc_credential :: Credential

record AIProjectClient =
  endpoint :: string
  pc_credential :: Credential

record Settings =
  foundry_project_endpoint :: string
  ai_search_connection_id :: string
  ai_search_index_name :: string
  mcp_connection_id :: string
  azure_client_id :: string
  key_vault_uri :: string
  storage_queue_name :: string

text \<open>The keyword arguments of one call of the external create-agent operation.\<close>

record AgentCall =
  call_model :: pyval
  call_name :: pyval
  call_instructions :: pyval
  call_tools :: "pyval list"
  call_tool_resources :: "(string \<times> pyval) list"

text \<open>
  What the process reads and never writes: \<^verbatim>\<open>os.environ\<close>, the secret store behind
  \<^verbatim>\<open>SecretClient.get_secret\<close> (for each name the \<^verbatim>\<open>.value\<close> of the secret, which
  may be \<^verbatim>\<open>None\<close>, or the exception the request ends with) and the agent service
  behind \<^verbatim>\<open>project_client.agents.create_agent\<close> (the id of the new agent, or the
  exception).
\<close>

record env =
  environ :: "(string \<times> string) list"
  vault :: "string \<Rightarrow> exn + string option"
  agents_api :: "AgentCall \<Rightarrow> exn + string"

text \<open>
  The module-level state of the process: the three \<^verbatim>\<open>lru_cache\<close>s, the
  \<^verbatim>\<open>_secret_cache\<close> dict, and the object counter that gives every constructed
  \<^verbatim>\<open>Settings\<close> instance its identity. \<open>store_calls\<close> and \<open>agent_calls\<close> record
  every request sent to the secret store and to the agent service, in order.
\<close>

record state =
  client_cache :: "SecretClient option"
  secret_cache :: "(string \<times> string) list"
  settings_cache :: "(nat \<times> Settings) option"
  project_client_cache :: "AIProjectClient option"
  next_id :: nat
  store_calls :: "string list"
  agent_calls :: "AgentCall list"

datatype builder_warning = Ai_search_unconfigured | Mcp_connection_unset

text \<open>One constructor for each logging call of the modelled code, with the values it formats.\<close>

datatype diagnostic =
    Debug_fetched_secret string
  | Warning_builder builder_warning
  | Error_unknown_tool pyval "string list"
  | Info_job_received
  | Info_queue_message
  | Info_creating_agent pyval pyval
  | Info_tools_requested pyval
  | Info_agent_created string pyval
  | Error_invalid_json exn
  | Error_validation exn
  | Error_processing exn
  | Error_invalid_format exn

text \<open>
  An operation of the process returns its value or the exception it raises, the state it
  leaves and the diagnostics it logged.
\<close>

type_synonym 'a result = "(exn + 'a) \<times> state \<times> diagnostic list"

definition and_then :: "(state \<Rightarrow> 'a result) \<Rightarrow> ('a \<Rightarrow> state \<Rightarrow> 'b result) \<Rightarrow> state \<Rightarrow> 'b result" where
  "and_then m f st =
     (case m st of
        (Inl e, st1, d1) \<Rightarrow> (Inl e, st1, d1)
      | (Inr x, st1, d1) \<Rightarrow> (case f x st1 of (r, st2, d2) \<Rightarrow> (r, st2, d1 @ d2)))"

definition lift :: "exn + 'a \<Rightarrow> state \<Rightarrow> 'a result" where
  "lift r st = (r, st, [])"

definition emit :: "diagnostic list \<Rightarrow> state \<Rightarrow> unit result" where
  "emit ds st = (Inr (), st, ds)"

section \<open>The secret store wrapper (utils/akv.py)\<close>

definition akv_build_credential :: "env \<Rightarrow> Credential" where
  "akv_build_credential ev =
     (let client_id = (case map_of (environ ev) ''AZURE_CLIENT_ID'' of None \<Rightarrow> [] | Some v \<Rightarrow> v)
      in if client_id \<noteq> [] then ManagedIdentityCredential client_id else DefaultAzureCredential)"

text \<open>\<^verbatim>\<open>_get_client\<close>, under \<^verbatim>\<open>lru_cache(maxsize=1)\<close>: a raised exception caches nothing.\<close>

definition get_client :: "env \<Rightarrow> state \<Rightarrow> SecretClient result" where
  "get_client ev st =
     (case client_cache st of
        Some c \<Rightarrow> (Inr c, st, [])
      | None \<Rightarrow>
          (case map_of (environ ev) ''KEY_VAULT_URI'' of
             None \<Rightarrow> (Inl (KeyError ''KEY_VAULT_URI''), st, [])
           | Some vault_uri \<Rightarrow>
               (let c = \<lparr>vault_url = vault_uri, sc_credential = akv_build_credential ev\<rparr>
                in (Inr c, st\<lparr>client_cache := Some c\<rparr>, []))))"

definition get_secret :: "env \<Rightarrow> string \<Rightarrow> bool \<Rightarrow> state \<Rightarrow> string result" where
  "get_secret ev name use_cache st =
     (case (if use_cache then map_of (secret_cache st) name else None) of
        Some v \<Rightarrow> (Inr v, st, [])
      | None \<Rightarrow>
          (case get_client ev st of
             (Inl e, st1, d1) \<Rightarrow> (Inl e, st1, d1)
           | (Inr c, st1, d1) \<Rightarrow>
               (let st2 = st1\<lparr>store_calls := store_calls st1 @ [name]\<rparr> in
                case vault ev name of
                  Inl e \<Rightarrow> (Inl e, st2, d1)
                | Inr secret_value \<Rightarrow>
                    (let v = (case secret_value of None \<Rightarrow> [] | Some x \<Rightarrow> x)
                     in (Inr v, st2\<lparr>secret_cache := dict_set name v (secret_cache st2)\<rparr>,
                         d1 @ [Debug_fetched_secret name])))))"

definition clear_cache :: "state \<Rightarrow> state" where
  "clear_cache st = st\<lparr>secret_cache := []\<rparr>"

section \<open>Settings (configs/settings.py)\<close>

text \<open>
  \<^verbatim>\<open>Settings()\<close> with no argument: the generated \<^verbatim>\<open>__init__\<close> runs the default
  factories in field order, and the new instance gets the next object identity.
\<close>

definition Settings_init :: "env \<Rightarrow> state \<Rightarrow> (nat \<times> Settings) result" where
  "Settings_init ev =
     and_then (get_secret ev KV_FOUNDRY_PROJECT_ENDPOINT True) (\<lambda>f1.
     and_then (get_secret ev KV_AI_SEARCH_CONNECTION_ID True) (\<lambda>f2.
     and_then (get_secret ev KV_AI_SEARCH_INDEX_NAME True) (\<lambda>f3.
     and_then (get_secret ev KV_MCP_CONNECTION_ID True) (\<lambda>f4. (\<lambda>st.
       (Inr (next_id st,
             \<lparr>foundry_project_endpoint = f1,
              ai_search_connection_id = f2,
              ai_search_index_name = f3,
              mcp_connection_id = f4,
              azure_client_id =
                (case map_of (environ ev) ''AZURE_CLIENT_ID'' of None \<Rightarrow> [] | Some v \<Rightarrow> v),
              key_vault_uri =
                (case map_of (environ ev) ''KEY_VAULT_URI'' of None \<Rightarrow> [] | Some v \<Rightarrow> v),
              storage_queue_name = AGENT_QUEUE_NAME\<rparr>),
        st\<lparr>next_id := Suc (next_id st)\<rparr>, []))))))"

text \<open>\<^verbatim>\<open>get_settings\<close>, under \<^verbatim>\<open>lru_cache(maxsize=1)\<close>.\<close>

definition get_settings :: "env \<Rightarrow> state \<Rightarrow> (nat \<times> Settings) result" where
  "get_settings ev st =
     (case settings_cache st of
        Some obj \<Rightarrow> (Inr obj, st, [])
      | None \<Rightarrow>
          (case Settings_init ev st of
             (Inl e, st1, d1) \<Rightarrow> (Inl e, st1, d1)
           | (Inr obj, st1, d1) \<Rightarrow> (Inr obj, st1\<lparr>settings_cache := Some obj\<rparr>, d1)))"

section \<open>The tool registry (configs/tools_registry.py)\<close>

record ToolEntry =
  tool_def :: pyval
  tool_resources :: "(string \<times> pyval) list"

text \<open>A builder returns the warnings it logs and the entry it builds.\<close>

type_synonym ToolBuilder = "Settings \<Rightarrow> builder_warning list \<times> ToolEntry"

definition build_ai_search :: ToolBuilder where
  "build_ai_search settings =
     ((if ai_search_connection_id settings = [] \<or> ai_search_index_name settings = []
       then [Ai_search_unconfigured] else []),
      \<lparr>tool_def = PDict [(''type'', PStr ''azure_ai_search'')],
       tool_resources =
         [(''azure_ai_search'',
           PDict [(''indexes'',
                   PList [PDict [(''index_connection_id'', PStr (ai_search_connection_id settings)),
                                 (''index_name'', PStr (ai_search_index_name settings))]])])]\<rparr>)"

definition build_microsoft_learn_mcp :: ToolBuilder where
  "build_microsoft_learn_mcp settings =
     ((if mcp_connection_id settings = [] then [Mcp_connection_unset] else []),
      \<lparr>tool_def = PDict [(''type'', PStr ''remote_mcp''),
                         (''remote_mcp'',
                          PDict [(''connection_id'', PStr (mcp_connection_id settings))])],
       tool_resources = []\<rparr>)"

definition build_code_interpreter :: ToolBuilder where
  "build_code_interpreter settings =
     ([], \<lparr>tool_def = PDict [(''type'', PStr ''code_interpreter'')], tool_resources = []\<rparr>)"

definition TOOL_REGISTRY :: "(string \<times> ToolBuilder) list" where
  "TOOL_REGISTRY =
     [(''ai_search'', build_ai_search),
      (''microsoft_learn_mcp'', build_microsoft_learn_mcp),
      (''code_interpreter'', build_code_interpreter)]"

text \<open>
  \<^verbatim>\<open>TOOL_REGISTRY.get(name)\<close>: a list or a dict is not hashable; any other value
  that is not a registered string is simply absent.
\<close>

fun registry_get :: "(string \<times> ToolBuilder) list \<Rightarrow> pyval \<Rightarrow> exn + ToolBuilder option" where
  "registry_get reg (PStr n) = Inr (map_of reg n)"
| "registry_get reg (PList xs) = Inl TypeError"
| "registry_get reg (PDict d) = Inl TypeError"
| "registry_get reg v = Inr None"

text \<open>
  The inner loop of the merge, over \<^verbatim>\<open>value.items()\<close>; \<open>cur\<close> is
  \<^verbatim>\<open>tool_resources[key]\<close>, updated in place.
\<close>

fun merge_sub_items :: "pyval \<Rightarrow> (string \<times> pyval) list \<Rightarrow> exn + pyval" where
  "merge_sub_items cur [] = Inr cur"
| "merge_sub_items cur ((sub_key, sub_val) # rest) =
     (case py_get cur sub_key (PList []) of
        Inl e \<Rightarrow> Inl e
      | Inr existing \<Rightarrow>
          (case py_add existing sub_val of
             Inl e \<Rightarrow> Inl e
           | Inr v \<Rightarrow>
               (case cur of
                  PDict d \<Rightarrow> merge_sub_items (PDict (dict_set sub_key v d)) rest
                | _ \<Rightarrow> Inl TypeError)))"

text \<open>The loop over \<^verbatim>\<open>entry.tool_resources.items()\<close>.\<close>

fun merge_resources ::
  "(string \<times> pyval) list \<Rightarrow> (string \<times> pyval) list \<Rightarrow> exn + (string \<times> pyval) list" where
  "merge_resources tr [] = Inr tr"
| "merge_resources tr ((key, val) # rest) =
     (case map_of tr key of
        Some cur \<Rightarrow>
          (case val of
             PDict items \<Rightarrow>
               (case merge_sub_items cur items of
                  Inl e \<Rightarrow> Inl e
                | Inr cur' \<Rightarrow> merge_resources (dict_set key cur' tr) rest)
           | _ \<Rightarrow> Inl AttributeError)
      | None \<Rightarrow> merge_resources (dict_set key val tr) rest)"

text \<open>The loop over \<^verbatim>\<open>tool_names\<close>, with the two accumulators of the source.\<close>

fun resolve_loop ::
  "(string \<times> ToolBuilder) list \<Rightarrow> Settings \<Rightarrow> pyval list \<Rightarrow> pyval list \<Rightarrow> (string \<times> pyval) list
   \<Rightarrow> (exn + pyval list \<times> (string \<times> pyval) list) \<times> diagnostic list" where
  "resolve_loop reg settings [] tools tr = (Inr (tools, tr), [])"
| "resolve_loop reg settings (name # rest) tools tr =
     (case registry_get reg name of
        Inl e \<Rightarrow> (Inl e, [])
      | Inr None \<Rightarrow>
          (case resolve_loop reg settings rest tools tr of
             (r, ds) \<Rightarrow> (r, Error_unknown_tool name (map fst reg) # ds))
      | Inr (Some builder) \<Rightarrow>
          (case builder settings of
             (ws, entry) \<Rightarrow>
               (case merge_resources tr (tool_resources entry) of
                  Inl e \<Rightarrow> (Inl e, map Warning_builder ws)
                | Inr tr' \<Rightarrow>
                    (case resolve_loop reg settings rest (tools @ [tool_def entry]) tr' of
                       (r, ds) \<Rightarrow> (r, map Warning_builder ws @ ds)))))"

text \<open>
  \<^verbatim>\<open>resolve_tools\<close>. The registry is the module-level dict the source reads; it is
  a parameter here because new tools are registered by adding entries to it.
\<close>

definition resolve_tools ::
  "env \<Rightarrow> (string \<times> ToolBuilder) list \<Rightarrow> pyval \<Rightarrow> state
   \<Rightarrow> (pyval list \<times> (string \<times> pyval) list) result" where
  "resolve_tools ev reg tool_names =
     and_then (get_settings ev) (\<lambda>obj.
     and_then (lift (py_iter tool_names)) (\<lambda>names. (\<lambda>st.
       (case resolve_loop reg (snd obj) names [] [] of (r, ds) \<Rightarrow> (r, st, ds)))))"

section \<open>The prompt table (prompts/agent_prompts.py)\<close>

definition AGENT_PROMPTS :: "(string \<times> string) list" where
  "AGENT_PROMPTS =
     [(''doc-bot'',
       ''You are a documentation assistant. '' @
       ''Use the connected AI Search index to find relevant documentation, '' @
       ''then provide clear, concise answers with source references. '' @
       ''If the answer is not in the index, say so honestly.''),
      (''code-helper'',
       ''You are a coding assistant specialised in Azure services. '' @
       ''Answer questions about Azure SDKs, Bicep, ARM templates, '' @
       ''and cloud architecture. Provide code samples when helpful.''),
      (''default'',
       ''You are a helpful AI assistant powered by Azure AI Foundry.'')]"

text \<open>
  \<^verbatim>\<open>AGENT_PROMPTS.get(agent_name, AGENT_PROMPTS["default"])\<close>: the default is
  looked up first, then the key, which must be hashable.
\<close>

definition get_prompt :: "pyval \<Rightarrow> exn + string" where
  "get_prompt agent_name =
     (case map_of AGENT_PROMPTS ''default'' of
        None \<Rightarrow> Inl (KeyError ''default'')
      | Some dflt \<Rightarrow>
          (case agent_name of
             PStr n \<Rightarrow> Inr (case map_of AGENT_PROMPTS n of None \<Rightarrow> dflt | Some p \<Rightarrow> p)
           | PList xs \<Rightarrow> Inl TypeError
           | PDict d \<Rightarrow> Inl TypeError
           | _ \<Rightarrow> Inr dflt))"

section \<open>The project client (utils/foundry_client.py)\<close>

definition foundry_build_credential :: "env \<Rightarrow> state \<Rightarrow> Credential result" where
  "foundry_build_credential ev =
     and_then (get_settings ev) (\<lambda>obj.
       lift (Inr (if azure_client_id (snd obj) \<noteq> []
                  then ManagedIdentityCredential (azure_client_id (snd obj))
                  else DefaultAzureCredential)))"

text \<open>\<^verbatim>\<open>get_project_client\<close>, under \<^verbatim>\<open>lru_cache(maxsize=1)\<close>.\<close>

definition get_project_client :: "env \<Rightarrow> state \<Rightarrow> AIProjectClient result" where
  "get_project_client ev st =
     (case project_client_cache st of
        Some c \<Rightarrow> (Inr c, st, [])
      | None \<Rightarrow>
          and_then (get_settings ev) (\<lambda>obj.
          and_then (foundry_build_credential ev) (\<lambda>cred. (\<lambda>st1.
            (let c = \<lparr>endpoint = foundry_project_endpoint (snd obj), pc_credential = cred\<rparr>
             in (Inr c, st1\<lparr>project_client_cache := Some c\<rparr>, [])))))
          st)"

text \<open>
  \<^verbatim>\<open>project_client.agents.create_agent(...)\<close>: the request is sent, and the service
  answers with the new agent's id or with an exception.
\<close>

definition agents_create_agent :: "env \<Rightarrow> AgentCall \<Rightarrow> state \<Rightarrow> string result" where
  "agents_create_agent ev call st =
     (agents_api ev call, st\<lparr>agent_calls := agent_calls st @ [call]\<rparr>, [])"

section \<open>The queue handlers (function_app.py, two variants)\<close>

text \<open>
  A queue message is modelled by what \<^verbatim>\<open>msg.get_body().decode('utf-8')\<close> and
  \<^verbatim>\<open>json.loads\<close> make of its body: the bytes are not UTF-8, the text is not JSON,
  or the text parses to a value.
\<close>

datatype QueueMessage = Undecodable | Invalid_json | Json_body pyval

definition decode_body :: "QueueMessage \<Rightarrow> exn + QueueMessage" where
  "decode_body msg = (case msg of Undecodable \<Rightarrow> Inl UnicodeDecodeError | _ \<Rightarrow> Inr msg)"

definition json_loads :: "QueueMessage \<Rightarrow> exn + pyval" where
  "json_loads msg =
     (case msg of
        Undecodable \<Rightarrow> Inl UnicodeDecodeError
      | Invalid_json \<Rightarrow> Inl JSONDecodeError
      | Json_body v \<Rightarrow> Inr v)"

text \<open>\<^verbatim>\<open>a or b\<close>, where evaluating \<open>b\<close> may raise.\<close>

definition py_or :: "pyval \<Rightarrow> (exn + pyval) \<Rightarrow> exn + pyval" where
  "py_or a b = (if truthy a then Inr a else b)"

subsection \<open>src/src/function_app.py: \<^verbatim>\<open>create_agent\<close>\<close>

text \<open>Malformed input is logged and the handler returns; everything later propagates.\<close>

definition create_agent ::
  "env \<Rightarrow> (string \<times> ToolBuilder) list \<Rightarrow> QueueMessage \<Rightarrow> state \<Rightarrow> unit result" where
  "create_agent ev reg msg =
     and_then (emit [Info_job_received]) (\<lambda>_.
       (case json_loads msg of
          Inl e \<Rightarrow> emit [Error_invalid_format e]
        | Inr config \<Rightarrow>
            and_then (lift (py_get config ''agent_name'' (PStr ''default-agent''))) (\<lambda>agent_name.
            and_then (lift (py_get config ''model'' (PStr ''gpt-4.1''))) (\<lambda>model.
            and_then (lift (case py_get config ''instructions'' PNone of
                              Inl e \<Rightarrow> Inl e
                            | Inr i \<Rightarrow> py_or i (map_sum id PStr (get_prompt agent_name))))
                     (\<lambda>instructions.
            and_then (lift (py_get config ''tools'' (PList []))) (\<lambda>tool_names.
            and_then (resolve_tools ev reg tool_names) (\<lambda>(tools, tool_resources).
            and_then (get_project_client ev) (\<lambda>project_client.
            and_then (agents_create_agent ev
                        \<lparr>call_model = model, call_name = agent_name,
                         call_instructions = instructions,
                         call_tools = tools, call_tool_resources = tool_resources\<rparr>)
                     (\<lambda>agent_id.
              emit [Info_agent_created agent_id agent_name])))))))))"

subsection \<open>src/function_app.py: \<^verbatim>\<open>agent_creation_processor\<close>\<close>

text \<open>The body of the \<^verbatim>\<open>try\<close> block.\<close>

definition processor_body ::
  "env \<Rightarrow> (string \<times> ToolBuilder) list \<Rightarrow> QueueMessage \<Rightarrow> state \<Rightarrow> unit result" where
  "processor_body ev reg msg =
     and_then (lift (decode_body msg)) (\<lambda>message_body.
     and_then (emit [Info_queue_message]) (\<lambda>_.
     and_then (lift (json_loads message_body)) (\<lambda>config.
     and_then (lift (case py_get config ''agent_name'' PNone of
                       Inl e \<Rightarrow> Inl e
                     | Inr a \<Rightarrow> py_or a (py_get config ''agentName'' (PStr ''default-agent''))))
              (\<lambda>agent_name.
     and_then (lift (py_get config ''model'' (PStr ''gpt-4.1''))) (\<lambda>model.
     and_then (lift (case py_get config ''instructions'' PNone of
                       Inl e \<Rightarrow> Inl e
                     | Inr i \<Rightarrow> py_or i (map_sum id PStr (get_prompt agent_name))))
              (\<lambda>instructions.
     and_then (lift (py_get config ''tools'' (PList []))) (\<lambda>tool_names.
     and_then (emit [Info_creating_agent agent_name model, Info_tools_requested tool_names]) (\<lambda>_.
     and_then (resolve_tools ev reg tool_names) (\<lambda>(tools, tool_resources).
     and_then (get_project_client ev) (\<lambda>project_client.
     and_then (agents_create_agent ev
                 \<lparr>call_model = model, call_name = agent_name,
                  call_instructions = instructions,
                  call_tools = tools, call_tool_resources = tool_resources\<rparr>)
              (\<lambda>agent_id.
       emit [Info_agent_created agent_id agent_name])))))))))))"

text \<open>
  The three \<^verbatim>\<open>except\<close> clauses, in the order the source tries them; each logs and
  re-raises. \<^verbatim>\<open>JSONDecodeError\<close> and \<^verbatim>\<open>UnicodeDecodeError\<close> are the
  \<^verbatim>\<open>ValueError\<close>s among the exceptions of the model.
\<close>

definition is_ValueError :: "exn \<Rightarrow> bool" where
  "is_ValueError e = (e = JSONDecodeError \<or> e = UnicodeDecodeError)"

definition except_diagnostic :: "exn \<Rightarrow> diagnostic" where
  "except_diagnostic e =
     (if e = JSONDecodeError then Error_invalid_json e
      else if is_ValueError e then Error_validation e
      else Error_processing e)"

definition agent_creation_processor ::
  "env \<Rightarrow> (string \<times> ToolBuilder) list \<Rightarrow> QueueMessage \<Rightarrow> state \<Rightarrow> unit result" where
  "agent_creation_processor ev reg msg st =
     (case and_then (emit [Info_job_received]) (\<lambda>_. processor_body ev reg msg) st of
        (Inl e, st1, ds) \<Rightarrow> (Inl e, st1, ds @ [except_diagnostic e])
      | (Inr u, st1, ds) \<Rightarrow> (Inr u, st1, ds))"

section \<open>Vocabulary of the statements about the registry\<close>

text \<open>
  The merge assumes that the second-level values are sequences: a resources value is
  well-formed for merging when it is a dict, with distinct keys as every Python dict has,
  whose values are lists.
\<close>

fun is_list :: "pyval \<Rightarrow> bool" where
  "is_list (PList xs) = True"
| "is_list _ = False"

fun dict_of_lists :: "pyval \<Rightarrow> bool" where
  "dict_of_lists (PDict d) = (distinct (map fst d) \<and> list_all (\<lambda>kv. is_list (snd kv)) d)"
| "dict_of_lists _ = False"

text \<open>
  \<open>sub_list v sk\<close> is the list a resources value declares under the sub-key \<open>sk\<close>;
  \<open>merged_sub vs sk\<close> is what merging the values \<open>vs\<close>, in this order, must leave under
  \<open>sk\<close>: nothing when none of them declares it, else the concatenation of their lists.
\<close>

fun sub_list :: "pyval \<Rightarrow> string \<Rightarrow> pyval list option" where
  "sub_list (PDict d) sk = (case map_of d sk of Some (PList xs) \<Rightarrow> Some xs | _ \<Rightarrow> None)"
| "sub_list _ sk = None"

definition merged_sub :: "pyval list \<Rightarrow> string \<Rightarrow> pyval option" where
  "merged_sub vs sk =
     (let ls = List.map_filter (\<lambda>v. sub_list v sk) vs
      in if ls = [] then None else Some (PList (concat ls)))"

text \<open>
  The entries that \<open>resolve_tools\<close> builds for the registered names of its input, in input
  order; all their resources items in the order the loops meet them; and, of these, the
  values declared under one top-level key.
\<close>

definition declared :: "string \<Rightarrow> (string \<times> pyval) list \<Rightarrow> pyval list" where
  "declared k items = map snd (filter (\<lambda>kv. fst kv = k) items)"

definition resolved_entries :: "(string \<times> ToolBuilder) list \<Rightarrow> Settings \<Rightarrow> string list \<Rightarrow> ToolEntry list" where
  "resolved_entries reg settings names =
     List.map_filter (\<lambda>n. map_option (\<lambda>b. snd (b settings)) (map_of reg n)) names"

definition all_items :: "(string \<times> ToolBuilder) list \<Rightarrow> Settings \<Rightarrow> string list \<Rightarrow> (string \<times> pyval) list" where
  "all_items reg settings names = concat (map tool_resources (resolved_entries reg settings names))"

text \<open>
  The invariant of the outer loops: after the items \<open>seen\<close>, the accumulator \<open>tr\<close> has no
  entry for a key not yet declared, the value itself for a key declared once, and a dict
  that looks up as \<open>merged_sub\<close> says for a key declared several times.
\<close>

definition rep_merged :: "pyval \<Rightarrow> pyval list \<Rightarrow> bool" where
  "rep_merged cur vs = (\<exists>d. cur = PDict d \<and> list_all (\<lambda>kv. is_list (snd kv)) d \<and> (\<forall>sk. map_of d sk = merged_sub vs sk))"

definition tracks :: "(string \<times> pyval) list \<Rightarrow> (string \<times> pyval) list \<Rightarrow> bool" where
  "tracks tr seen = (\<forall>k.
      (declared k seen = [] \<longrightarrow> map_of tr k = None) \<and>
      (\<forall>v. declared k seen = [v] \<longrightarrow> map_of tr k = Some v) \<and>
      (2 \<le> length (declared k seen) \<longrightarrow> (\<exists>cur. map_of tr k = Some cur \<and> rep_merged cur (declared k seen))))"

text \<open>
  The hypothesis of the merge: where two or more entries declare the same top-level key,
  all the values declared under it are dicts of lists.
\<close>

definition colliding_ok :: "(string \<times> pyval) list \<Rightarrow> bool" where
  "colliding_ok items =
     list_all (\<lambda>k. 2 \<le> length (declared k items) \<longrightarrow> list_all dict_of_lists (declared k items))
       (map fst items)"

text \<open>The diagnostics of a run of the loop that reaches its end.\<close>

definition loop_diagnostics :: "(string \<times> ToolBuilder) list \<Rightarrow> Settings \<Rightarrow> string list \<Rightarrow> diagnostic list" where
  "loop_diagnostics reg settings names =
     concat (map (\<lambda>n. case map_of reg n of
                         None \<Rightarrow> [Error_unknown_tool (PStr n) (map fst reg)]
                       | Some b \<Rightarrow> map Warning_builder (fst (b settings))) names)"

fun is_unknown_tool :: "diagnostic \<Rightarrow> bool" where
  "is_unknown_tool (Error_unknown_tool n known) = True"
| "is_unknown_tool _ = False"

text \<open>The tool definition built for one name, and the two halves of an input list.\<close>

definition tool_def_for :: "(string \<times> ToolBuilder) list \<Rightarrow> Settings \<Rightarrow> string \<Rightarrow> pyval option" where
  "tool_def_for reg settings n = map_option (\<lambda>b. tool_def (snd (b settings))) (map_of reg n)"

definition known_names :: "(string \<times> ToolBuilder) list \<Rightarrow> string list \<Rightarrow> string list" where
  "known_names reg names = filter (\<lambda>n. map_of reg n \<noteq> None) names"

definition unknown_names :: "(string \<times> ToolBuilder) list \<Rightarrow> string list \<Rightarrow> string list" where
  "unknown_names reg names = filter (\<lambda>n. map_of reg n = None) names"

section \<open>Vocabulary of the statements about secrets and settings\<close>

text \<open>
  The four secret names that \<^verbatim>\<open>Settings()\<close> looks up, in field order, and a caller
  that looks up a list of names one after the other with the default \<open>use_cache = True\<close>,
  the first exception ending the run.
\<close>

definition settings_secret_names :: "string list" where
  "settings_secret_names =
     [KV_FOUNDRY_PROJECT_ENDPOINT, KV_AI_SEARCH_CONNECTION_ID, KV_AI_SEARCH_INDEX_NAME, KV_MCP_CONNECTION_ID]"

fun get_secrets :: "env \<Rightarrow> string list \<Rightarrow> state \<Rightarrow> string list result" where
  "get_secrets ev [] st = (Inr [], st, [])"
| "get_secrets ev (n # ns) st =
     and_then (get_secret ev n True) (\<lambda>v.
     and_then (get_secrets ev ns) (\<lambda>vs. lift (Inr (v # vs)))) st"

text \<open>
  \<^verbatim>\<open>_get_client()\<close> returns: the client is cached or \<^verbatim>\<open>KEY_VAULT_URI\<close> is set.
  A secret can be had: it is cached or the store answers the request with a value.
\<close>

definition client_available :: "env \<Rightarrow> state \<Rightarrow> bool" where
  "client_available ev st = (client_cache st \<noteq> None \<or> map_of (environ ev) ''KEY_VAULT_URI'' \<noteq> None)"

definition secret_available :: "env \<Rightarrow> state \<Rightarrow> string \<Rightarrow> bool" where
  "secret_available ev st n = (map_of (secret_cache st) n \<noteq> None \<or> \<not> isl (vault ev n))"

definition is_fetch_debug :: "diagnostic \<Rightarrow> bool" where
  "is_fetch_debug d = (case d of Debug_fetched_secret n \<Rightarrow> True | _ \<Rightarrow> False)"

text \<open>The instance that \<^verbatim>\<open>Settings()\<close> builds from the four fetched values.\<close>

definition settings_of :: "env \<Rightarrow> string list \<Rightarrow> Settings" where
  "settings_of ev vs =
     \<lparr>foundry_project_endpoint = vs ! 0,
      ai_search_connection_id = vs ! 1,
      ai_search_index_name = vs ! 2,
      mcp_connection_id = vs ! 3,
      azure_client_id = (case map_of (environ ev) ''AZURE_CLIENT_ID'' of None \<Rightarrow> [] | Some v \<Rightarrow> v),
      key_vault_uri = (case map_of (environ ev) ''KEY_VAULT_URI'' of None \<Rightarrow> [] | Some v \<Rightarrow> v),
      storage_queue_name = AGENT_QUEUE_NAME\<rparr>"

section \<open>Vocabulary of the statements about the handlers\<close>

text \<open>
  The steps both handlers end with, from \<^verbatim>\<open>resolve_tools\<close> to the last log line,
  as a function of the four values they read from the message.
\<close>

definition handler_tail ::
  "env \<Rightarrow> (string \<times> ToolBuilder) list \<Rightarrow> pyval \<Rightarrow> pyval \<Rightarrow> pyval \<Rightarrow> pyval \<Rightarrow> state \<Rightarrow> unit result" where
  "handler_tail ev reg agent_name model instructions tool_names =
     and_then (resolve_tools ev reg tool_names) (\<lambda>(tools, tool_resources).
     and_then (get_project_client ev) (\<lambda>project_client.
     and_then (agents_create_agent ev
                 \<lparr>call_model = model, call_name = agent_name,
                  call_instructions = instructions,
                  call_tools = tools, call_tool_resources = tool_resources\<rparr>)
              (\<lambda>agent_id.
       emit [Info_agent_created agent_id agent_name])))"

text \<open>
  For a message that is a JSON object \<open>d\<close>: a field or its default, the instructions
  the handlers compute for an agent name, and the agent name that
  \<^verbatim>\<open>agent_creation_processor\<close> computes.
\<close>

definition field_or :: "(string \<times> pyval) list \<Rightarrow> string \<Rightarrow> pyval \<Rightarrow> pyval" where
  "field_or d k dflt = (case map_of d k of None \<Rightarrow> dflt | Some v \<Rightarrow> v)"

definition instructions_for :: "(string \<times> pyval) list \<Rightarrow> pyval \<Rightarrow> exn + pyval" where
  "instructions_for d agent_name =
     py_or (field_or d ''instructions'' PNone) (map_sum id PStr (get_prompt agent_name))"

definition legacy_agent_name :: "(string \<times> pyval) list \<Rightarrow> pyval" where
  "legacy_agent_name d =
     (if truthy (field_or d ''agent_name'' PNone) then field_or d ''agent_name'' PNone
      else field_or d ''agentName'' (PStr ''default-agent''))"

text \<open>
  A process is a sequence of calls of the public operations, each made in the environment
  and with the registry of its moment; the results go to the callers, the state stays.
\<close>

datatype process_call =
    Call_get_secret string bool
  | Call_clear_cache
  | Call_get_settings
  | Call_resolve_tools pyval
  | Call_get_project_client
  | Call_create_agent QueueMessage
  | Call_agent_creation_processor QueueMessage

fun run_call :: "env \<Rightarrow> (string \<times> ToolBuilder) list \<Rightarrow> process_call \<Rightarrow> state \<Rightarrow> state" where
  "run_call ev reg (Call_get_secret n use_cache) st = fst (snd (get_secret ev n use_cache st))"
| "run_call ev reg Call_clear_cache st = clear_cache st"
| "run_call ev reg Call_get_settings st = fst (snd (get_settings ev st))"
| "run_call ev reg (Call_resolve_tools names) st = fst (snd (resolve_tools ev reg names st))"
| "run_call ev reg Call_get_project_client st = fst (snd (get_project_client ev st))"
| "run_call ev reg (Call_create_agent msg) st = fst (snd (create_agent ev reg msg st))"
| "run_call ev reg (Call_agent_creation_processor msg) st =
     fst (snd (agent_creation_processor ev reg msg st))"

fun run_calls :: "(env \<times> (string \<times> ToolBuilder) list \<times> process_call) list \<Rightarrow> state \<Rightarrow> state" where
  "run_calls [] st = st"
| "run_calls ((ev, reg, c) # cs) st = run_calls cs (run_call ev reg c st)"

section \<open>Example environments\<close>

text \<open>
  The process at start-up, nothing cached and nothing requested yet; a store that holds
  every secret; the settings and the state that the first \<open>get_settings\<close> then yields.
\<close>

definition initial_state :: state where
  "initial_state =
     \<lparr>client_cache = None, secret_cache = [], settings_cache = None,
      project_client_cache = None, next_id = 0, store_calls = [], agent_calls = []\<rparr>"

definition example_env :: env where
  "example_env =
     \<lparr>environ = [(''KEY_VAULT_URI'', ''https://kv.example'')],
      vault = (\<lambda>n. Inr (Some (''value-of-'' @ n))),
      agents_api = (\<lambda>c. Inr ''agent-1'')\<rparr>"

definition example_settings :: Settings where
  "example_settings =
     \<lparr>foundry_project_endpoint = ''value-of-foundry-project-endpoint'',
      ai_search_connection_id = ''value-of-ai-search-connection-id'',
      ai_search_index_name = ''value-of-ai-search-index-name'',
      mcp_connection_id = ''value-of-mcp-connection-id'',
      azure_client_id = [],
      key_vault_uri = ''https://kv.example'',
      storage_queue_name = ''agent-jobs''\<rparr>"

definition resolved_state :: state where
  "resolved_state =
     \<lparr>client_cache = Some \<lparr>vault_url = ''https://kv.example'', sc_credential = DefaultAzureCredential\<rparr>,
      secret_cache =
        [(''foundry-project-endpoint'', ''value-of-foundry-project-endpoint''),
         (''ai-search-connection-id'', ''value-of-ai-search-connection-id''),
         (''ai-search-index-name'', ''value-of-ai-search-index-name''),
         (''mcp-connection-id'', ''value-of-mcp-connection-id'')],
      settings_cache = Some (0, example_settings),
      project_client_cache = None, next_id = 1,
      store_calls = [''foundry-project-endpoint'', ''ai-search-connection-id'',
                     ''ai-search-index-name'', ''mcp-connection-id''],
      agent_calls = []\<rparr>"

text \<open>
  The registry of the synthetic example: two search builders that both populate the
  top-level resources key \<^verbatim>\<open>x\<close>.
\<close>

definition example_registry :: "(string \<times> ToolBuilder) list" where
  "example_registry =
     [(''search_a'', (\<lambda>settings.
         ([], \<lparr>tool_def = PDict [(''type'', PStr ''search_a'')],
               tool_resources = [(''x'', PDict [(''items'', PList [PInt 1])])]\<rparr>))),
      (''search_b'', (\<lambda>settings.
         ([], \<lparr>tool_def = PDict [(''type'', PStr ''search_b'')],
               tool_resources = [(''x'', PDict [(''items'', PList [PInt 2])])]\<rparr>)))]"

text \<open>A store in which one of the four settings secrets does not exist.\<close>

definition failing_env :: env where
  "failing_env =
     \<lparr>environ = [(''KEY_VAULT_URI'', ''https://kv.example'')],
      vault = (\<lambda>n. if n = ''ai-search-index-name'' then Inl ResourceNotFoundError
                    else Inr (Some (''value-of-'' @ n))),
      agents_api = (\<lambda>c. Inr ''agent-1'')\<rparr>"

text \<open>The store after every secret has been rotated.\<close>

definition rotated_env :: env where
  "rotated_env =
     \<lparr>environ = [(''KEY_VAULT_URI'', ''https://kv.example'')],
      vault = (\<lambda>n. Inr (Some ''rotated'')),
      agents_api = (\<lambda>c. Inr ''agent-1'')\<rparr>"

section \<open>The merge loops\<close>

lemma map_of_dict_set: "map_of (dict_set k v d) = (map_of d)(k \<mapsto> v)"
  by (induction d) auto

lemma list_all_dict_set: "P (k, v) \<Longrightarrow> list_all P d \<Longrightarrow> list_all P (dict_set k v d)"
  by (induction d) auto

lemma all_lists_lookup:
  "list_all (\<lambda>kv. is_list (snd kv)) d \<Longrightarrow> map_of d sk = Some v \<Longrightarrow> \<exists>xs. v = PList xs"
  by (induction d) (auto split: if_splits elim: is_list.elims)

lemma merge_sub_items_lists:
  assumes "list_all (\<lambda>kv. is_list (snd kv)) d" "list_all (\<lambda>kv. is_list (snd kv)) items"
    "distinct (map fst items)"
  shows "\<exists>d'. merge_sub_items (PDict d) items = Inr (PDict d') \<and> list_all (\<lambda>kv. is_list (snd kv)) d' \<and>
     (\<forall>sk. map_of d' sk =
        (case sub_list (PDict items) sk of
           None \<Rightarrow> map_of d sk
         | Some xs \<Rightarrow> Some (PList ((case sub_list (PDict d) sk of None \<Rightarrow> [] | Some e \<Rightarrow> e) @ xs))))"
  using assms
proof (induction items arbitrary: d)
  case Nil
  then show ?case by simp
next
  case (Cons item rest)
  obtain sk0 sv where item: "item = (sk0, sv)" by (cases item)
  from Cons.prems(2) item obtain xs where sv: "sv = PList xs"
    by (auto elim: is_list.elims)
  define e where "e = (case sub_list (PDict d) sk0 of None \<Rightarrow> [] | Some e \<Rightarrow> e)"
  have existing: "(case map_of d sk0 of None \<Rightarrow> PList [] | Some v \<Rightarrow> v) = PList e"
    using all_lists_lookup[OF Cons.prems(1), of sk0] by (auto simp: e_def split: option.splits)
  let ?d1 = "dict_set sk0 (PList (e @ xs)) d"
  have d1: "list_all (\<lambda>kv. is_list (snd kv)) ?d1"
    using Cons.prems(1) by (intro list_all_dict_set) simp_all
  from Cons.prems have rest: "list_all (\<lambda>kv. is_list (snd kv)) rest" "distinct (map fst rest)"
    and fresh: "sk0 \<notin> fst ` set rest"
    by (auto simp: item)
  from Cons.IH[OF d1 rest] obtain d' where
    run: "merge_sub_items (PDict ?d1) rest = Inr (PDict d')" and
    lists: "list_all (\<lambda>kv. is_list (snd kv)) d'" and
    look: "\<And>sk. map_of d' sk =
        (case sub_list (PDict rest) sk of
           None \<Rightarrow> map_of ?d1 sk
         | Some xs \<Rightarrow> Some (PList ((case sub_list (PDict ?d1) sk of None \<Rightarrow> [] | Some e \<Rightarrow> e) @ xs)))"
    by blast
  have step: "merge_sub_items (PDict d) (item # rest) = Inr (PDict d')"
    using run existing by (simp add: item sv)
  have none: "map_of rest sk0 = None"
    using fresh by (simp add: map_of_eq_None_iff)
  have "map_of d' sk =
        (case sub_list (PDict (item # rest)) sk of
           None \<Rightarrow> map_of d sk
         | Some xs \<Rightarrow> Some (PList ((case sub_list (PDict d) sk of None \<Rightarrow> [] | Some e \<Rightarrow> e) @ xs)))" for sk
  proof (cases "sk = sk0")
    case True
    then show ?thesis
      using look[of sk0] none by (simp add: item sv map_of_dict_set e_def)
  next
    case False
    then have a: "sub_list (PDict ?d1) sk = sub_list (PDict d) sk"
      and b: "map_of ?d1 sk = map_of d sk"
      and c: "sub_list (PDict (item # rest)) sk = sub_list (PDict rest) sk"
      by (simp_all add: map_of_dict_set item)
    show ?thesis
      by (simp only: look[of sk] a b c)
  qed
  with step lists show ?case by blast
qed

lemma colliding_ok_iff:
  "colliding_ok items \<longleftrightarrow>
     (\<forall>k. 2 \<le> length (declared k items) \<longrightarrow> list_all dict_of_lists (declared k items))"
proof
  assume ok: "colliding_ok items"
  show "\<forall>k. 2 \<le> length (declared k items) \<longrightarrow> list_all dict_of_lists (declared k items)"
  proof (intro allI impI)
    fix k
    assume len: "2 \<le> length (declared k items)"
    have "k \<in> fst ` set items"
    proof (rule ccontr)
      assume "k \<notin> fst ` set items"
      then have "declared k items = []"
        by (auto simp: declared_def filter_empty_conv)
      with len show False by simp
    qed
    with ok len show "list_all dict_of_lists (declared k items)"
      by (auto simp: colliding_ok_def list_all_iff)
  qed
next
  assume "\<forall>k. 2 \<le> length (declared k items) \<longrightarrow> list_all dict_of_lists (declared k items)"
  then show "colliding_ok items"
    by (simp add: colliding_ok_def list_all_iff)
qed

lemma declared_append: "declared k (xs @ ys) = declared k xs @ declared k ys"
  by (simp add: declared_def)

lemma declared_single: "declared k [(k', v)] = (if k' = k then [v] else [])"
  by (simp add: declared_def)

lemma colliding_ok_prefix: "colliding_ok (xs @ ys) \<Longrightarrow> colliding_ok xs"
  by (auto simp: colliding_ok_iff declared_append)

lemma merged_sub_result: "merged_sub vs sk = None \<or> (\<exists>xs. merged_sub vs sk = Some (PList xs))"
  by (simp add: merged_sub_def Let_def)

lemma merged_sub_snoc:
  "merged_sub (vs @ [v]) sk =
     (case sub_list v sk of
        None \<Rightarrow> merged_sub vs sk
      | Some xs \<Rightarrow> Some (PList ((case merged_sub vs sk of Some (PList e) \<Rightarrow> e | _ \<Rightarrow> []) @ xs)))"
  by (simp add: merged_sub_def Let_def List.map_filter_def split: option.splits)

lemma rep_merged_single:
  assumes "dict_of_lists v"
  shows "rep_merged v [v]"
proof -
  from assms obtain d where v: "v = PDict d" and lists: "list_all (\<lambda>kv. is_list (snd kv)) d"
    by (auto elim: dict_of_lists.elims)
  have "map_of d sk = merged_sub [PDict d] sk" for sk
    using all_lists_lookup[OF lists, of sk]
    by (auto simp: merged_sub_def Let_def List.map_filter_def split: option.splits)
  with v lists show ?thesis by (auto simp: rep_merged_def)
qed

lemma rep_merged_step:
  assumes "rep_merged cur vs" "dict_of_lists (PDict items)"
  shows "\<exists>cur'. merge_sub_items cur items = Inr cur' \<and> rep_merged cur' (vs @ [PDict items])"
proof -
  from assms(1) obtain d where cur: "cur = PDict d" and lists: "list_all (\<lambda>kv. is_list (snd kv)) d"
    and look: "\<And>sk. map_of d sk = merged_sub vs sk"
    by (auto simp: rep_merged_def)
  from assms(2) have items: "list_all (\<lambda>kv. is_list (snd kv)) items" "distinct (map fst items)"
    by simp_all
  from merge_sub_items_lists[OF lists items] obtain d' where
    run: "merge_sub_items (PDict d) items = Inr (PDict d')" and
    lists': "list_all (\<lambda>kv. is_list (snd kv)) d'" and
    look': "\<And>sk. map_of d' sk =
        (case sub_list (PDict items) sk of
           None \<Rightarrow> map_of d sk
         | Some xs \<Rightarrow> Some (PList ((case sub_list (PDict d) sk of None \<Rightarrow> [] | Some e \<Rightarrow> e) @ xs)))"
    by blast
  have "map_of d' sk = merged_sub (vs @ [PDict items]) sk" for sk
  proof -
    have e: "(case sub_list (PDict d) sk of None \<Rightarrow> [] | Some e \<Rightarrow> e) =
             (case merged_sub vs sk of Some (PList e) \<Rightarrow> e | _ \<Rightarrow> [])"
      using merged_sub_result[of vs sk] by (auto simp: look)
    show ?thesis
      by (simp only: look'[of sk] merged_sub_snoc e look)
  qed
  with run lists' cur show ?thesis by (auto simp: rep_merged_def)
qed

lemma tracks_insert:
  assumes "tracks tr seen" "declared k seen = []"
  shows "tracks (dict_set k v tr) (seen @ [(k, v)])"
  using assms
  by (auto simp: tracks_def declared_append declared_single map_of_dict_set)

lemma tracks_merge:
  assumes "tracks tr seen" "rep_merged cur' (declared k seen @ [v])" "declared k seen \<noteq> []"
  shows "tracks (dict_set k cur' tr) (seen @ [(k, v)])"
  using assms
  by (auto simp: tracks_def declared_append declared_single map_of_dict_set)

lemma tracks_current:
  assumes tr: "tracks tr seen" and ne: "declared k seen \<noteq> []"
    and ok: "list_all dict_of_lists (declared k seen)"
  shows "\<exists>cur. map_of tr k = Some cur \<and> rep_merged cur (declared k seen)"
proof (cases "declared k seen")
  case Nil
  with ne show ?thesis by simp
next
  case (Cons v0 more)
  show ?thesis
  proof (cases more)
    case Nil
    with Cons tr ok show ?thesis
      by (auto simp: tracks_def intro: rep_merged_single)
  next
    case (Cons v1 more')
    with \<open>declared k seen = v0 # more\<close> have "2 \<le> length (declared k seen)" by simp
    with tr show ?thesis by (auto simp: tracks_def)
  qed
qed

lemma merge_resources_tracks:
  assumes "tracks tr seen" "colliding_ok (seen @ items)"
  shows "\<exists>tr'. merge_resources tr items = Inr tr' \<and> tracks tr' (seen @ items)"
  using assms
proof (induction items arbitrary: tr seen)
  case Nil
  then show ?case by simp
next
  case (Cons item rest)
  obtain k v where item: "item = (k, v)" by (cases item)
  have ok': "colliding_ok ((seen @ [(k, v)]) @ rest)"
    using Cons.prems(2) by (simp add: item)
  show ?case
  proof (cases "declared k seen = []")
    case True
    with Cons.prems(1) have none: "map_of tr k = None" by (simp add: tracks_def)
    from Cons.IH[OF tracks_insert[OF Cons.prems(1) True] ok']
    show ?thesis by (simp add: item none)
  next
    case False
    then have "2 \<le> length (declared k (seen @ item # rest))"
      by (cases "declared k seen") (simp_all add: declared_def item)
    with Cons.prems(2) have all: "list_all dict_of_lists (declared k (seen @ item # rest))"
      by (simp add: colliding_ok_iff)
    then have old: "list_all dict_of_lists (declared k seen)" and new: "dict_of_lists v"
      by (simp_all add: declared_def item)
    from new obtain its where v: "v = PDict its" by (auto elim: dict_of_lists.elims)
    from tracks_current[OF Cons.prems(1) False old] obtain cur where
      cur: "map_of tr k = Some cur" and rep: "rep_merged cur (declared k seen)" by blast
    from rep_merged_step[OF rep new[unfolded v]] obtain cur' where
      run: "merge_sub_items cur its = Inr cur'" and rep': "rep_merged cur' (declared k seen @ [v])"
      by (auto simp: v)
    from Cons.IH[OF tracks_merge[OF Cons.prems(1) rep' False] ok']
    show ?thesis by (simp add: item cur v run)
  qed
qed

section \<open>The loop over the tool names\<close>

lemma resolved_entries_Nil [simp]: "resolved_entries reg s [] = []"
  by (simp add: resolved_entries_def List.map_filter_def)

lemma resolved_entries_Cons:
  "resolved_entries reg s (n # ns) =
     (case map_of reg n of None \<Rightarrow> resolved_entries reg s ns
      | Some b \<Rightarrow> snd (b s) # resolved_entries reg s ns)"
  by (simp add: resolved_entries_def List.map_filter_def split: option.splits)

lemma all_items_Cons:
  "all_items reg s (n # ns) =
     (case map_of reg n of None \<Rightarrow> all_items reg s ns
      | Some b \<Rightarrow> tool_resources (snd (b s)) @ all_items reg s ns)"
  by (simp add: all_items_def resolved_entries_Cons split: option.splits)

lemma resolve_loop_tracks:
  assumes "tracks tr seen" "colliding_ok (seen @ all_items reg s names)"
  shows "\<exists>tr'. resolve_loop reg s (map PStr names) tools tr =
            (Inr (tools @ map tool_def (resolved_entries reg s names), tr'), loop_diagnostics reg s names)
          \<and> tracks tr' (seen @ all_items reg s names)"
  using assms
proof (induction names arbitrary: tools tr seen)
  case Nil
  then show ?case by (simp add: all_items_def loop_diagnostics_def)
next
  case (Cons n ns)
  show ?case
  proof (cases "map_of reg n")
    case None
    with Cons.prems have ok: "colliding_ok (seen @ all_items reg s ns)"
      by (simp add: all_items_Cons)
    from Cons.IH[OF Cons.prems(1) ok, of tools] None
    show ?thesis
      by (auto simp: all_items_Cons resolved_entries_Cons loop_diagnostics_def)
  next
    case (Some b)
    obtain ws entry where b: "b s = (ws, entry)" by (cases "b s")
    from Cons.prems(2) Some b
    have whole: "colliding_ok ((seen @ tool_resources entry) @ all_items reg s ns)"
      by (simp add: all_items_Cons)
    then have "colliding_ok (seen @ tool_resources entry)"
      by (rule colliding_ok_prefix)
    from merge_resources_tracks[OF Cons.prems(1) this] obtain tr1 where
      merge: "merge_resources tr (tool_resources entry) = Inr tr1" and
      tr1: "tracks tr1 (seen @ tool_resources entry)" by blast
    from Cons.IH[OF tr1 whole, of "tools @ [tool_def entry]"] Some b merge
    show ?thesis
      by (auto simp: all_items_Cons resolved_entries_Cons loop_diagnostics_def)
  qed
qed

lemma tracks_empty: "tracks [] []"
  by (simp add: tracks_def declared_def)

lemma resolve_tools_run:
  assumes "get_settings ev st = (Inr obj, st1, ds1)"
  shows "resolve_tools ev reg (PList xs) st =
     (fst (resolve_loop reg (snd obj) xs [] []), st1, ds1 @ snd (resolve_loop reg (snd obj) xs [] []))"
  using assms by (simp add: resolve_tools_def and_then_def lift_def split: prod.splits)

lemma resolve_tools_fail:
  assumes "get_settings ev st = (Inl e, st1, ds1)"
  shows "resolve_tools ev reg xs st = (Inl e, st1, ds1)"
  using assms by (simp add: resolve_tools_def and_then_def)

lemma resolve_loop_skips_unknown:
  "fst (resolve_loop reg s (map PStr names) tools tr) =
     fst (resolve_loop reg s (map PStr (filter (\<lambda>n. map_of reg n \<noteq> None) names)) tools tr)
   \<and> filter (\<lambda>d. \<not> is_unknown_tool d) (snd (resolve_loop reg s (map PStr names) tools tr)) =
     snd (resolve_loop reg s (map PStr (filter (\<lambda>n. map_of reg n \<noteq> None) names)) tools tr)"
proof (induction names arbitrary: tools tr)
  case Nil
  then show ?case by simp
next
  case (Cons n ns)
  have w: "filter (\<lambda>d. \<not> is_unknown_tool d) (map Warning_builder ws) = map Warning_builder ws" for ws
    by (induction ws) simp_all
  show ?case
  proof (cases "map_of reg n")
    case None
    with Cons.IH[of tools tr] show ?thesis
      by (auto split: prod.splits)
  next
    case (Some b)
    obtain ws entry where b: "b s = (ws, entry)" by (cases "b s")
    show ?thesis
    proof (cases "merge_resources tr (tool_resources entry)")
      case (Inl e)
      with Some b show ?thesis by (simp add: w)
    next
      case (Inr tr1)
      with Some b Cons.IH[of "tools @ [tool_def entry]" tr1] show ?thesis
        by (auto simp: w split: prod.splits)
    qed
  qed
qed

lemma all_dict_of_lists_colliding_ok:
  assumes "\<forall>kv\<in>set items. dict_of_lists (snd kv)"
  shows "colliding_ok items"
  using assms by (auto simp: colliding_ok_iff declared_def list_all_iff)

lemma all_items_origin:
  assumes "kv \<in> set (all_items reg s names)"
  shows "\<exists>n b. map_of reg n = Some b \<and> kv \<in> set (tool_resources (snd (b s)))"
  using assms
proof (induction names)
  case Nil
  then show ?case by (simp add: all_items_def)
next
  case (Cons n ns)
  then show ?case
    by (cases "map_of reg n") (auto simp: all_items_Cons)
qed

lemma TOOL_REGISTRY_builders:
  assumes "map_of TOOL_REGISTRY n = Some b"
  shows "b = build_ai_search \<or> b = build_microsoft_learn_mcp \<or> b = build_code_interpreter"
  using assms by (auto simp: TOOL_REGISTRY_def split: if_splits)

lemma TOOL_REGISTRY_resources:
  assumes "map_of TOOL_REGISTRY n = Some b" "kv \<in> set (tool_resources (snd (b s)))"
  shows "dict_of_lists (snd kv)"
  using TOOL_REGISTRY_builders[OF assms(1)] assms(2)
  by (auto simp: build_ai_search_def build_microsoft_learn_mcp_def build_code_interpreter_def)

lemma TOOL_REGISTRY_colliding_ok: "colliding_ok (all_items TOOL_REGISTRY s names)"
  by (rule all_dict_of_lists_colliding_ok) (auto dest!: all_items_origin intro: TOOL_REGISTRY_resources)

lemma resolved_defs_known:
  assumes "\<forall>n\<in>set names. map_of reg n \<noteq> None"
  shows "map Some (map tool_def (resolved_entries reg s names)) = map (tool_def_for reg s) names"
  using assms
  by (induction names) (auto simp: resolved_entries_Cons tool_def_for_def)

lemma resolve_loop_success_diagnostics:
  assumes "fst (resolve_loop reg s (map PStr names) tools tr) = Inr out"
  shows "snd (resolve_loop reg s (map PStr names) tools tr) = loop_diagnostics reg s names"
  using assms
proof (induction names arbitrary: tools tr)
  case Nil
  then show ?case by (simp add: loop_diagnostics_def)
next
  case (Cons n ns)
  show ?case
  proof (cases "map_of reg n")
    case None
    with Cons.prems have "fst (resolve_loop reg s (map PStr ns) tools tr) = Inr out"
      by (simp split: prod.splits)
    from Cons.IH[OF this] None show ?thesis
      by (auto simp: loop_diagnostics_def split: prod.splits)
  next
    case (Some b)
    obtain ws entry where b: "b s = (ws, entry)" by (cases "b s")
    show ?thesis
    proof (cases "merge_resources tr (tool_resources entry)")
      case (Inl e)
      with Some b Cons.prems show ?thesis by simp
    next
      case (Inr tr1)
      with Some b Cons.prems
      have "fst (resolve_loop reg s (map PStr ns) (tools @ [tool_def entry]) tr1) = Inr out"
        by (simp split: prod.splits)
      from Cons.IH[OF this] Some b Inr show ?thesis
        by (auto simp: loop_diagnostics_def split: prod.splits)
    qed
  qed
qed

lemma unknown_loop_diagnostics:
  "filter is_unknown_tool (loop_diagnostics reg s names) =
     map (\<lambda>n. Error_unknown_tool (PStr n) (map fst reg)) (unknown_names reg names)"
proof (induction names)
  case Nil
  then show ?case by (simp add: loop_diagnostics_def unknown_names_def)
next
  case (Cons n ns)
  have w: "filter is_unknown_tool (map Warning_builder ws) = []" for ws
    by (induction ws) simp_all
  from Cons show ?case
    by (cases "map_of reg n") (simp_all add: loop_diagnostics_def unknown_names_def w)
qed

section \<open>The secret store wrapper: effects of one lookup\<close>

lemma get_client_frame:
  assumes "get_client ev st = (r, st1, ds)"
  shows "ds = [] \<and> secret_cache st1 = secret_cache st \<and> settings_cache st1 = settings_cache st \<and>
     project_client_cache st1 = project_client_cache st \<and> next_id st1 = next_id st \<and>
     store_calls st1 = store_calls st \<and> agent_calls st1 = agent_calls st \<and>
     (case r of Inl e \<Rightarrow> st1 = st | Inr c \<Rightarrow> client_cache st1 = Some c)"
  using assms by (auto simp: get_client_def Let_def split: option.splits)

lemma get_client_ok:
  assumes "client_available ev st"
  shows "\<exists>c. get_client ev st = (Inr c, st\<lparr>client_cache := Some c\<rparr>, [])"
  using assms by (auto simp: get_client_def client_available_def Let_def split: option.splits)

lemma get_secret_hit:
  "map_of (secret_cache st) n = Some v \<Longrightarrow> get_secret ev n True st = (Inr v, st, [])"
  by (simp add: get_secret_def)

lemma get_secret_miss:
  assumes "use_cache \<longrightarrow> map_of (secret_cache st) n = None"
    and "get_client ev st = (Inr c, st1, [])"
  shows "get_secret ev n use_cache st =
     (case vault ev n of
        Inl e \<Rightarrow> (Inl e, st1\<lparr>store_calls := store_calls st1 @ [n]\<rparr>, [])
      | Inr sv \<Rightarrow>
          (Inr (case sv of None \<Rightarrow> [] | Some x \<Rightarrow> x),
           st1\<lparr>store_calls := store_calls st1 @ [n],
               secret_cache := dict_set n (case sv of None \<Rightarrow> [] | Some x \<Rightarrow> x) (secret_cache st1)\<rparr>,
           [Debug_fetched_secret n]))"
  using assms by (auto simp: get_secret_def Let_def split: sum.splits)

lemma get_secret_no_client:
  assumes "use_cache \<longrightarrow> map_of (secret_cache st) n = None"
    and "get_client ev st = (Inl e, st1, ds)"
  shows "get_secret ev n use_cache st = (Inl e, st, [])"
  using assms get_client_frame[OF assms(2)] by (auto simp: get_secret_def)

lemma get_secret_effect:
  assumes "get_secret ev n uc st = (r, st1, ds)"
  shows "settings_cache st1 = settings_cache st \<and> project_client_cache st1 = project_client_cache st
     \<and> next_id st1 = next_id st \<and> agent_calls st1 = agent_calls st
     \<and> list_all is_fetch_debug ds
     \<and> (client_available ev st \<longrightarrow> client_available ev st1)
     \<and> (store_calls st1 = store_calls st \<or>
        store_calls st1 = store_calls st @ [n] \<and> (uc \<longrightarrow> map_of (secret_cache st) n = None))
     \<and> (case r of
          Inl e \<Rightarrow> secret_cache st1 = secret_cache st
        | Inr v \<Rightarrow> map_of (secret_cache st1) = (map_of (secret_cache st))(n \<mapsto> v)
                   \<and> ((uc \<longrightarrow> map_of (secret_cache st) n = None) \<longrightarrow> store_calls st1 = store_calls st @ [n]))"
proof (cases "uc \<and> map_of (secret_cache st) n \<noteq> None")
  case True
  then obtain v where v: "map_of (secret_cache st) n = Some v" and uc: uc by auto
  with assms get_secret_hit[OF v, of ev] have "r = Inr v" "st1 = st" "ds = []" by simp_all
  with v uc show ?thesis by (auto simp: is_fetch_debug_def)
next
  case False
  then have miss: "uc \<longrightarrow> map_of (secret_cache st) n = None" by auto
  obtain rc stc dc where gc: "get_client ev st = (rc, stc, dc)" by (cases "get_client ev st") auto
  note fr = get_client_frame[OF gc]
  show ?thesis
  proof (cases rc)
    case (Inl e)
    with get_secret_no_client[OF miss] gc assms show ?thesis
      by (auto simp: is_fetch_debug_def)
  next
    case (Inr c)
    with gc fr have gc': "get_client ev st = (Inr c, stc, [])" by simp
    from get_secret_miss[OF miss gc'] assms fr Inr miss show ?thesis
      by (auto simp: is_fetch_debug_def map_of_dict_set client_available_def split: sum.splits)
  qed
qed

lemma get_secret_Inr:
  assumes "get_secret ev n uc st = (Inr v, st1, ds)"
  shows "map_of (secret_cache st1) = (map_of (secret_cache st))(n \<mapsto> v)"
    and "store_calls st1 =
           store_calls st @ (if uc \<and> map_of (secret_cache st) n \<noteq> None then [] else [n])"
  using get_secret_effect[OF assms] by auto

lemma get_secret_Inl:
  assumes "get_secret ev n uc st = (Inl e, st1, ds)"
  shows "secret_cache st1 = secret_cache st"
    and "uc \<longrightarrow> map_of (secret_cache st) n = None"
    and "store_calls st1 = store_calls st \<or> store_calls st1 = store_calls st @ [n]"
proof -
  from get_secret_effect[OF assms] show "secret_cache st1 = secret_cache st"
    and "store_calls st1 = store_calls st \<or> store_calls st1 = store_calls st @ [n]" by auto
  show "uc \<longrightarrow> map_of (secret_cache st) n = None"
    using assms by (cases "map_of (secret_cache st) n") (auto simp: get_secret_def)
qed

lemma get_secret_frame:
  assumes "get_secret ev n uc st = (r, st1, ds)"
  shows "settings_cache st1 = settings_cache st" "project_client_cache st1 = project_client_cache st"
    "next_id st1 = next_id st" "agent_calls st1 = agent_calls st" "list_all is_fetch_debug ds"
    "client_available ev st \<Longrightarrow> client_available ev st1"
  using get_secret_effect[OF assms] by simp_all

section \<open>Runs of lookups and the construction of Settings\<close>

lemma get_secrets_step:
  assumes "get_secret ev n True st = (r0, st0, d0)"
  shows "get_secrets ev (n # ns) st =
     (case r0 of
        Inl e \<Rightarrow> (Inl e, st0, d0)
      | Inr v \<Rightarrow>
          (case get_secrets ev ns st0 of
             (Inl e, st1, d1) \<Rightarrow> (Inl e, st1, d0 @ d1)
           | (Inr vs, st1, d1) \<Rightarrow> (Inr (v # vs), st1, d0 @ d1)))"
  using assms by (simp add: and_then_def lift_def split: sum.splits prod.splits)

lemma get_secrets_frame:
  assumes "get_secrets ev names st = (r, st1, ds)"
  shows "settings_cache st1 = settings_cache st \<and> project_client_cache st1 = project_client_cache st
     \<and> next_id st1 = next_id st \<and> agent_calls st1 = agent_calls st \<and> list_all is_fetch_debug ds"
  using assms
proof (induction names arbitrary: st r st1 ds)
  case Nil
  then show ?case by simp
next
  case (Cons n ns)
  obtain r0 st0 d0 where g: "get_secret ev n True st = (r0, st0, d0)"
    by (cases "get_secret ev n True st") auto
  note fr0 = get_secret_frame[OF g]
  show ?case
  proof (cases r0)
    case (Inl e)
    with get_secrets_step[OF g, of ns] Cons.prems have "st1 = st0" "ds = d0" by simp_all
    with fr0 show ?thesis by simp
  next
    case (Inr v)
    obtain r' st' d' where g': "get_secrets ev ns st0 = (r', st', d')"
      by (cases "get_secrets ev ns st0") auto
    from get_secrets_step[OF g, of ns] Inr g' Cons.prems have "st1 = st'" "ds = d0 @ d'"
      by (auto split: sum.splits)
    with Cons.IH[OF g'] fr0 show ?thesis by simp
  qed
qed

lemma get_secrets_calls:
  assumes "get_secrets ev names st = (r, st1, ds)"
  shows "\<exists>cs. store_calls st1 = store_calls st @ cs \<and> distinct cs
            \<and> set cs \<subseteq> set names - dom (map_of (secret_cache st))
            \<and> (\<forall>vs. r = Inr vs \<longrightarrow>
                  set cs = set names - dom (map_of (secret_cache st)) \<and> length vs = length names)"
  using assms
proof (induction names arbitrary: st r st1 ds)
  case Nil
  then show ?case by auto
next
  case (Cons n ns)
  obtain r0 st0 d0 where g: "get_secret ev n True st = (r0, st0, d0)"
    by (cases "get_secret ev n True st") auto
  show ?case
  proof (cases r0)
    case (Inl e)
    with get_secrets_step[OF g, of ns] Cons.prems have res: "r = Inl e" "st1 = st0" by simp_all
    from g Inl have g0: "get_secret ev n True st = (Inl e, st0, d0)" by simp
    from get_secret_Inl(2)[OF g0] have fresh: "n \<notin> dom (map_of (secret_cache st))"
      by (simp add: domIff)
    from get_secret_Inl(3)[OF g0] show ?thesis
    proof
      assume "store_calls st0 = store_calls st"
      with res show ?thesis by (intro exI[of _ "[]"]) simp
    next
      assume "store_calls st0 = store_calls st @ [n]"
      with res fresh show ?thesis by (intro exI[of _ "[n]"]) simp
    qed
  next
    case (Inr v)
    from g Inr have g0: "get_secret ev n True st = (Inr v, st0, d0)" by simp
    obtain r' st' d' where g': "get_secrets ev ns st0 = (r', st', d')"
      by (cases "get_secrets ev ns st0") auto
    from Cons.IH[OF g'] obtain cs' where
      cs': "store_calls st' = store_calls st0 @ cs'" "distinct cs'"
          "set cs' \<subseteq> set ns - dom (map_of (secret_cache st0))"
      and full: "\<And>vs. r' = Inr vs \<Longrightarrow>
             set cs' = set ns - dom (map_of (secret_cache st0)) \<and> length vs = length ns"
      by blast
    have dom0: "dom (map_of (secret_cache st0)) = insert n (dom (map_of (secret_cache st)))"
      by (simp add: get_secret_Inr(1)[OF g0])
    from get_secrets_step[OF g, of ns] Inr g' Cons.prems have res: "st1 = st'"
      "r = (case r' of Inl e \<Rightarrow> Inl e | Inr vs \<Rightarrow> Inr (v # vs))"
      by (auto split: sum.splits)
    define c0 where "c0 = (if map_of (secret_cache st) n \<noteq> None then [] else [n])"
    have sc: "store_calls st0 = store_calls st @ c0"
      by (simp add: get_secret_Inr(2)[OF g0] c0_def)
    have 1: "store_calls st1 = store_calls st @ (c0 @ cs')"
      by (simp add: res cs' sc)
    have 2: "distinct (c0 @ cs')"
      using cs'(2,3) dom0 by (auto simp: c0_def)
    have 3: "set (c0 @ cs') \<subseteq> set (n # ns) - dom (map_of (secret_cache st))"
      using cs'(3) dom0 by (auto simp: c0_def domIff)
    have 4: "set (c0 @ cs') = set (n # ns) - dom (map_of (secret_cache st)) \<and> length vs = length (n # ns)"
      if "r = Inr vs" for vs
    proof -
      from that res(2) obtain vs' where r': "r' = Inr vs'" and vs: "vs = v # vs'"
        by (cases r') auto
      from full[OF r'] dom0 vs show ?thesis by (auto simp: c0_def domIff)
    qed
    from 1 2 3 4 show ?thesis by blast
  qed
qed

lemma and_then_run:
  assumes "m st = (r, st1, d1)"
  shows "and_then m f st =
     (case r of Inl e \<Rightarrow> (Inl e, st1, d1)
      | Inr x \<Rightarrow> (fst (f x st1), fst (snd (f x st1)), d1 @ snd (snd (f x st1))))"
  using assms by (simp add: and_then_def split: sum.splits prod.splits)

lemma and_then_assoc:
  "and_then (and_then m f) g = and_then m (\<lambda>x. and_then (f x) g)"
proof
  fix st
  obtain r st1 d1 where m: "m st = (r, st1, d1)" by (cases "m st") auto
  show "and_then (and_then m f) g st = and_then m (\<lambda>x. and_then (f x) g) st"
  proof (cases r)
    case (Inl e)
    with m show ?thesis by (simp add: and_then_def)
  next
    case (Inr x)
    obtain r2 st2 d2 where f: "f x st1 = (r2, st2, d2)" by (cases "f x st1") auto
    show ?thesis
    proof (cases r2)
      case (Inl e)
      with m Inr f show ?thesis by (simp add: and_then_def)
    next
      case (Inr y)
      with m \<open>r = Inr x\<close> f show ?thesis by (simp add: and_then_def split: prod.splits)
    qed
  qed
qed

lemma lift_and_then: "and_then (lift (Inr x)) f = f x"
  by (rule ext) (simp add: and_then_def lift_def split: prod.splits)

lemma get_secrets_Nil_fn: "get_secrets ev [] = lift (Inr [])"
  by (rule ext) (simp add: lift_def)

lemma get_secrets_Cons_fn:
  "get_secrets ev (n # ns) =
     and_then (get_secret ev n True) (\<lambda>v. and_then (get_secrets ev ns) (\<lambda>vs. lift (Inr (v # vs))))"
  by (rule ext) simp

lemma Settings_init_get_secrets:
  "Settings_init ev =
     and_then (get_secrets ev settings_secret_names)
       (\<lambda>vs st. (Inr (next_id st, settings_of ev vs), st\<lparr>next_id := Suc (next_id st)\<rparr>, []))"
  by (simp add: Settings_init_def settings_secret_names_def get_secrets_Cons_fn get_secrets_Nil_fn
      and_then_assoc lift_and_then settings_of_def)

lemma get_settings_hit:
  "settings_cache st = Some obj \<Longrightarrow> get_settings ev st = (Inr obj, st, [])"
  by (simp add: get_settings_def)

lemma Settings_init_effect:
  assumes "Settings_init ev st = (r, st1, ds)"
  shows "settings_cache st1 = settings_cache st \<and> project_client_cache st1 = project_client_cache st
     \<and> agent_calls st1 = agent_calls st \<and> list_all is_fetch_debug ds
     \<and> (case r of Inl e \<Rightarrow> next_id st1 = next_id st
         | Inr obj \<Rightarrow> fst obj = next_id st \<and> next_id st1 = Suc (next_id st))"
proof -
  obtain r0 st0 d0 where g: "get_secrets ev settings_secret_names st = (r0, st0, d0)"
    by (cases "get_secrets ev settings_secret_names st") auto
  note fr = get_secrets_frame[OF g]
  from assms have "(r, st1, ds) =
     (case r0 of Inl e \<Rightarrow> (Inl e, st0, d0)
      | Inr vs \<Rightarrow> (Inr (next_id st0, settings_of ev vs), st0\<lparr>next_id := Suc (next_id st0)\<rparr>, d0))"
    by (simp add: Settings_init_get_secrets
        and_then_run[where m = "get_secrets ev settings_secret_names", OF g] split: sum.splits)
  with fr show ?thesis by (cases r0) auto
qed

lemma get_settings_effect:
  assumes "get_settings ev st = (r, st1, ds)"
  shows "project_client_cache st1 = project_client_cache st \<and> agent_calls st1 = agent_calls st
     \<and> list_all is_fetch_debug ds
     \<and> (case r of
          Inl e \<Rightarrow> settings_cache st = None \<and> settings_cache st1 = None
        | Inr obj \<Rightarrow> settings_cache st1 = Some obj
                     \<and> (settings_cache st = None \<longrightarrow> fst obj = next_id st \<and> next_id st1 = Suc (next_id st)))"
proof (cases "settings_cache st")
  case (Some obj)
  with assms show ?thesis by (auto simp: get_settings_def)
next
  case None
  obtain r0 st0 d0 where i: "Settings_init ev st = (r0, st0, d0)"
    by (cases "Settings_init ev st") auto
  from Settings_init_effect[OF i] None assms i show ?thesis
    by (cases r0) (auto simp: get_settings_def)
qed

lemma get_secret_available:
  assumes "secret_available ev st m" "client_available ev st"
  shows "\<exists>v st0 d0. get_secret ev m True st = (Inr v, st0, d0)"
proof (cases "map_of (secret_cache st) m")
  case (Some v)
  from get_secret_hit[OF this, of ev] show ?thesis by blast
next
  case None
  with assms(1) obtain sv where sv: "vault ev m = Inr sv"
    by (cases "vault ev m") (auto simp: secret_available_def)
  from get_client_ok[OF assms(2)] obtain c where
    gc: "get_client ev st = (Inr c, st\<lparr>client_cache := Some c\<rparr>, [])" by blast
  from get_secret_miss[OF _ gc, of True m] None sv show ?thesis by simp
qed

lemma get_secret_fails:
  assumes "vault ev name = Inl e" "client_available ev st"
    "use_cache \<longrightarrow> map_of (secret_cache st) name = None"
  shows "\<exists>st1. get_secret ev name use_cache st = (Inl e, st1, [])
            \<and> store_calls st1 = store_calls st @ [name] \<and> secret_cache st1 = secret_cache st
            \<and> settings_cache st1 = settings_cache st \<and> next_id st1 = next_id st"
proof -
  from get_client_ok[OF assms(2)] obtain c where
    gc: "get_client ev st = (Inr c, st\<lparr>client_cache := Some c\<rparr>, [])" by blast
  from get_secret_miss[OF assms(3) gc] assms(1) show ?thesis by simp
qed

lemma get_secrets_fail:
  assumes "vault ev name = Inl e" "client_available ev st" "map_of (secret_cache st) name = None"
    "\<forall>m\<in>set pre. secret_available ev st m"
  shows "\<exists>st1 ds cs. get_secrets ev (pre @ name # post) st = (Inl e, st1, ds)
            \<and> store_calls st1 = store_calls st @ cs @ [name] \<and> name \<notin> set cs
            \<and> settings_cache st1 = settings_cache st \<and> next_id st1 = next_id st"
  using assms(2-)
proof (induction pre arbitrary: st)
  case Nil
  from get_secret_fails[OF assms(1) Nil(1), of True] Nil(2) obtain st1 where
    g: "get_secret ev name True st = (Inl e, st1, [])" and
    st1: "store_calls st1 = store_calls st @ [name]" "settings_cache st1 = settings_cache st"
      "next_id st1 = next_id st" by auto
  from get_secrets_step[OF g, of post] st1 show ?case
    by (intro exI[of _ st1] exI[of _ "[]"]) simp
next
  case (Cons m pre)
  from Cons.prems(3) have avail: "secret_available ev st m" by simp
  have neq: "m \<noteq> name"
    using avail Cons.prems(2) assms(1) by (auto simp: secret_available_def)
  from get_secret_available[OF avail Cons.prems(1)] obtain v st0 d0 where
    g: "get_secret ev m True st = (Inr v, st0, d0)" by blast
  have client0: "client_available ev st0"
    using get_secret_frame(6)[OF g] Cons.prems(1) by simp
  have cache0: "map_of (secret_cache st0) = (map_of (secret_cache st))(m \<mapsto> v)"
    by (rule get_secret_Inr(1)[OF g])
  have none0: "map_of (secret_cache st0) name = None"
    using Cons.prems(2) neq by (simp add: cache0)
  have avail0: "\<forall>m'\<in>set pre. secret_available ev st0 m'"
    using Cons.prems(3) by (auto simp: secret_available_def cache0)
  from Cons.IH[OF client0 none0 avail0] obtain st1 ds cs where
    run: "get_secrets ev (pre @ name # post) st0 = (Inl e, st1, ds)" and
    calls: "store_calls st1 = store_calls st0 @ cs @ [name]" "name \<notin> set cs" and
    fr: "settings_cache st1 = settings_cache st0" "next_id st1 = next_id st0" by blast
  define c0 where "c0 = (if map_of (secret_cache st) m \<noteq> None then [] else [m])"
  have sc0: "store_calls st0 = store_calls st @ c0"
    using get_secret_Inr(2)[OF g] by (simp add: c0_def)
  have "get_secrets ev ((m # pre) @ name # post) st = (Inl e, st1, d0 @ ds)"
    using get_secrets_step[OF g, of "pre @ name # post"] run by simp
  moreover have "store_calls st1 = store_calls st @ (c0 @ cs) @ [name]"
    by (simp add: calls sc0)
  moreover have "name \<notin> set (c0 @ cs)"
    using calls(2) neq by (simp add: c0_def)
  moreover have "settings_cache st1 = settings_cache st" "next_id st1 = next_id st"
    using fr get_secret_frame(1,3)[OF g] by simp_all
  ultimately show ?case by blast
qed

lemma Settings_init_run:
  assumes "get_secrets ev settings_secret_names st = (r0, st0, d0)"
  shows "Settings_init ev st =
     (case r0 of Inl e \<Rightarrow> (Inl e, st0, d0)
      | Inr vs \<Rightarrow> (Inr (next_id st0, settings_of ev vs), st0\<lparr>next_id := Suc (next_id st0)\<rparr>, d0))"
  by (simp add: Settings_init_get_secrets
        and_then_run[where m = "get_secrets ev settings_secret_names", OF assms] split: sum.splits)

section \<open>Settings, tools and the project client inside the handlers\<close>

lemma and_then_emit:
  "and_then (emit ds) f st = (fst (f () st), fst (snd (f () st)), ds @ snd (snd (f () st)))"
  by (simp add: and_then_def emit_def split: prod.splits)

lemma and_then_lift_Inl: "and_then (lift (Inl e)) f st = (Inl e, st, [])"
  by (simp add: and_then_def lift_def)

lemma get_settings_frame:
  assumes "get_settings ev st = (r, st1, ds)"
  shows "project_client_cache st1 = project_client_cache st" "agent_calls st1 = agent_calls st"
    "list_all is_fetch_debug ds"
    "settings_cache st = Some obj \<Longrightarrow> settings_cache st1 = Some obj"
  using get_settings_effect[OF assms] assms by (auto simp: get_settings_def)

lemma get_settings_Inr:
  assumes "get_settings ev st = (Inr obj, st1, ds)"
  shows "settings_cache st1 = Some obj"
  using get_settings_effect[OF assms] by simp

lemma resolve_tools_state:
  "fst (snd (resolve_tools ev reg x st)) = fst (snd (get_settings ev st))"
proof -
  obtain r st1 ds where g: "get_settings ev st = (r, st1, ds)" by (cases "get_settings ev st") auto
  show ?thesis
    by (cases r; cases "py_iter x")
       (simp_all add: g resolve_tools_def and_then_run[where m = "get_settings ev", OF g]
          and_then_lift_Inl lift_and_then split: prod.splits)
qed

lemma resolve_tools_frame:
  assumes "resolve_tools ev reg x st = (r, st1, ds)"
  shows "project_client_cache st1 = project_client_cache st" "agent_calls st1 = agent_calls st"
    "settings_cache st = Some obj \<Longrightarrow> settings_cache st1 = Some obj"
    "r = Inr out \<Longrightarrow> \<exists>obj. settings_cache st1 = Some obj"
proof -
  obtain r0 st0 d0 where g: "get_settings ev st = (r0, st0, d0)" by (cases "get_settings ev st") auto
  from resolve_tools_state[of ev reg x st] assms g have st: "st1 = st0" by simp
  from get_settings_frame[OF g] st
  show "project_client_cache st1 = project_client_cache st" "agent_calls st1 = agent_calls st"
    "settings_cache st = Some obj \<Longrightarrow> settings_cache st1 = Some obj" by simp_all
  show "\<exists>obj. settings_cache st1 = Some obj" if "r = Inr out"
  proof (cases r0)
    case (Inl e)
    with g assms that show ?thesis
      by (simp add: resolve_tools_def and_then_run[where m = "get_settings ev", OF g])
  next
    case (Inr obj)
    with g get_settings_Inr st show ?thesis by auto
  qed
qed

lemma get_project_client_ready:
  assumes "settings_cache st = Some obj"
  shows "\<exists>c st1. get_project_client ev st = (Inr c, st1, []) \<and> agent_calls st1 = agent_calls st
      \<and> settings_cache st1 = Some obj"
proof (cases "project_client_cache st")
  case (Some c)
  with assms show ?thesis by (simp add: get_project_client_def)
next
  case None
  note hit = get_settings_hit[OF assms, of ev]
  have cred: "foundry_build_credential ev st =
      (Inr (if azure_client_id (snd obj) \<noteq> [] then ManagedIdentityCredential (azure_client_id (snd obj))
            else DefaultAzureCredential), st, [])"
    by (simp add: foundry_build_credential_def and_then_run[where m = "get_settings ev", OF hit] lift_def)
  show ?thesis
    using None assms
    by (simp add: get_project_client_def and_then_run[where m = "get_settings ev", OF hit]
        and_then_run[where m = "foundry_build_credential ev", OF cred] Let_def)
qed

lemma get_project_client_frame:
  assumes "get_project_client ev st = (r, st1, ds)"
  shows "agent_calls st1 = agent_calls st"
    "settings_cache st = Some obj \<Longrightarrow> settings_cache st1 = Some obj"
proof -
  show "settings_cache st = Some obj \<Longrightarrow> settings_cache st1 = Some obj"
    using get_project_client_ready[of st obj ev] assms by auto
  show "agent_calls st1 = agent_calls st"
  proof (cases "project_client_cache st")
    case (Some c)
    with assms show ?thesis by (simp add: get_project_client_def)
  next
    case None
    obtain r0 st0 d0 where g: "get_settings ev st = (r0, st0, d0)" by (cases "get_settings ev st") auto
    show ?thesis
    proof (cases r0)
      case (Inl e)
      with None assms g get_settings_frame(2)[OF g] show ?thesis
        by (simp add: get_project_client_def and_then_run[where m = "get_settings ev", OF g])
    next
      case (Inr obj)
      with g have s0: "settings_cache st0 = Some obj" using get_settings_Inr by simp
      note hit = get_settings_hit[OF s0, of ev]
      have cred: "foundry_build_credential ev st0 =
        (Inr (if azure_client_id (snd obj) \<noteq> [] then ManagedIdentityCredential (azure_client_id (snd obj))
              else DefaultAzureCredential), st0, [])"
        by (simp add: foundry_build_credential_def and_then_run[where m = "get_settings ev", OF hit] lift_def)
      from None assms Inr get_settings_frame(2)[OF g] show ?thesis
        by (auto simp: get_project_client_def and_then_run[where m = "get_settings ev", OF g]
            and_then_run[where m = "foundry_build_credential ev", OF cred] Let_def)
    qed
  qed
qed

section \<open>The handlers on a JSON object\<close>

lemma py_get_dict: "py_get (PDict d) k dflt = Inr (field_or d k dflt)"
  by (simp add: field_or_def)

lemma create_agent_dict:
  "create_agent ev reg (Json_body (PDict d)) =
     and_then (emit [Info_job_received]) (\<lambda>_.
     and_then (lift (instructions_for d (field_or d ''agent_name'' (PStr ''default-agent'')))) (\<lambda>ins.
       handler_tail ev reg (field_or d ''agent_name'' (PStr ''default-agent''))
         (field_or d ''model'' (PStr ''gpt-4.1'')) ins (field_or d ''tools'' (PList []))))"
  by (simp add: create_agent_def json_loads_def py_get_dict lift_and_then handler_tail_def
      instructions_for_def del: py_get.simps)

lemma processor_body_dict:
  "processor_body ev reg (Json_body (PDict d)) =
     and_then (emit [Info_queue_message]) (\<lambda>_.
     and_then (lift (instructions_for d (legacy_agent_name d))) (\<lambda>ins.
     and_then (emit [Info_creating_agent (legacy_agent_name d) (field_or d ''model'' (PStr ''gpt-4.1'')),
                     Info_tools_requested (field_or d ''tools'' (PList []))]) (\<lambda>_.
       handler_tail ev reg (legacy_agent_name d)
         (field_or d ''model'' (PStr ''gpt-4.1'')) ins (field_or d ''tools'' (PList [])))))"
  by (simp add: processor_body_def json_loads_def decode_body_def py_get_dict lift_and_then
      handler_tail_def instructions_for_def legacy_agent_name_def py_or_def del: py_get.simps)

lemma handler_tail_run:
  assumes "resolve_tools ev reg tn st = (r0, st0, d0)"
  shows "handler_tail ev reg an model ins tn st =
     (case r0 of
        Inl e \<Rightarrow> (Inl e, st0, d0)
      | Inr (tools, tr) \<Rightarrow>
          (case get_project_client ev st0 of
             (Inl e, st1, d1) \<Rightarrow> (Inl e, st1, d0 @ d1)
           | (Inr c, st1, d1) \<Rightarrow>
               (let call = \<lparr>call_model = model, call_name = an, call_instructions = ins,
                            call_tools = tools, call_tool_resources = tr\<rparr>;
                    st2 = st1\<lparr>agent_calls := agent_calls st1 @ [call]\<rparr>
                in case agents_api ev call of
                     Inl e \<Rightarrow> (Inl e, st2, d0 @ d1)
                   | Inr agent_id \<Rightarrow> (Inr (), st2, d0 @ d1 @ [Info_agent_created agent_id an]))))"
proof (cases r0)
  case (Inl e)
  with assms show ?thesis
    by (simp add: handler_tail_def and_then_run[where m = "resolve_tools ev reg tn", OF assms])
next
  case (Inr out)
  obtain tools tr where out: "out = (tools, tr)" by (cases out)
  obtain r1 st1 d1 where g: "get_project_client ev st0 = (r1, st1, d1)"
    by (cases "get_project_client ev st0") auto
  show ?thesis
    by (cases r1)
       (simp_all add: Inr out g handler_tail_def
          and_then_run[where m = "resolve_tools ev reg tn", OF assms]
          and_then_run[where m = "get_project_client ev", OF g]
          and_then_def[of "agents_create_agent ev _"] agents_create_agent_def emit_def Let_def
          split: sum.splits)
qed

lemma handler_tail_calls:
  assumes "handler_tail ev reg an model ins tn st = (r, st1, ds)"
  shows "(agent_calls st1 = agent_calls st \<and> r \<noteq> Inr ()) \<or>
         (\<exists>tools tr. agent_calls st1 = agent_calls st @
            [\<lparr>call_model = model, call_name = an, call_instructions = ins,
              call_tools = tools, call_tool_resources = tr\<rparr>])"
proof -
  obtain r0 st0 d0 where rt: "resolve_tools ev reg tn st = (r0, st0, d0)"
    by (cases "resolve_tools ev reg tn st") auto
  note fr0 = resolve_tools_frame(2)[OF rt]
  note run = handler_tail_run[OF rt, of an model ins]
  show ?thesis
  proof (cases r0)
    case (Inl e)
    with run assms fr0 show ?thesis by auto
  next
    case (Inr out)
    obtain tools tr where out: "out = (tools, tr)" by (cases out)
    obtain r1 st1' d1 where g: "get_project_client ev st0 = (r1, st1', d1)"
      by (cases "get_project_client ev st0") auto
    note fr1 = get_project_client_frame(1)[OF g]
    show ?thesis
    proof (cases r1)
      case (Inl e)
      with run assms Inr out g fr0 fr1 show ?thesis by auto
    next
      case r1: (Inr c)
      with run assms Inr out g fr0 fr1 show ?thesis
        by (auto simp: Let_def split: sum.splits)
    qed
  qed
qed

lemma handler_tail_ok:
  assumes rt: "resolve_tools ev reg tn st = (Inr (tools, tr), st0, d0)"
    and api: "agents_api ev \<lparr>call_model = model, call_name = an, call_instructions = ins,
                              call_tools = tools, call_tool_resources = tr\<rparr> = Inr agent_id"
  shows "\<exists>st1 ds. handler_tail ev reg an model ins tn st = (Inr (), st1, ds) \<and>
           agent_calls st1 = agent_calls st @
             [\<lparr>call_model = model, call_name = an, call_instructions = ins,
               call_tools = tools, call_tool_resources = tr\<rparr>]"
proof -
  from resolve_tools_frame(4)[OF rt] obtain obj where cached: "settings_cache st0 = Some obj"
    by auto
  from get_project_client_ready[OF cached, of ev] obtain c st1 where
    g: "get_project_client ev st0 = (Inr c, st1, [])" and calls: "agent_calls st1 = agent_calls st0"
    by blast
  from handler_tail_run[OF rt, of an model ins] g api calls resolve_tools_frame(2)[OF rt]
  show ?thesis by (simp add: Let_def)
qed

lemma handler_tail_keeps_settings:
  assumes "settings_cache st = Some obj"
  shows "settings_cache (fst (snd (handler_tail ev reg an model ins tn st))) = Some obj"
proof -
  obtain r0 st0 d0 where rt: "resolve_tools ev reg tn st = (r0, st0, d0)"
    by (cases "resolve_tools ev reg tn st") auto
  note s0 = resolve_tools_frame(3)[OF rt assms]
  note run = handler_tail_run[OF rt, of an model ins]
  show ?thesis
  proof (cases r0)
    case (Inl e)
    with run s0 show ?thesis by simp
  next
    case (Inr out)
    obtain tools tr where out: "out = (tools, tr)" by (cases out)
    from get_project_client_ready[OF s0, of ev] obtain c st1 where
      g: "get_project_client ev st0 = (Inr c, st1, [])" and s1: "settings_cache st1 = Some obj"
      by blast
    from run Inr out g s1 show ?thesis
      by (simp add: Let_def split: sum.splits)
  qed
qed

lemma create_agent_dict_run:
  "create_agent ev reg (Json_body (PDict d)) st =
     (case instructions_for d (field_or d ''agent_name'' (PStr ''default-agent'')) of
        Inl e \<Rightarrow> (Inl e, st, [Info_job_received])
      | Inr ins \<Rightarrow>
          (case handler_tail ev reg (field_or d ''agent_name'' (PStr ''default-agent''))
                  (field_or d ''model'' (PStr ''gpt-4.1'')) ins (field_or d ''tools'' (PList [])) st of
             (r, st1, ds) \<Rightarrow> (r, st1, Info_job_received # ds)))"
  by (cases "instructions_for d (field_or d ''agent_name'' (PStr ''default-agent''))")
     (simp_all add: create_agent_dict and_then_emit and_then_lift_Inl lift_and_then split: prod.splits)

lemma processor_dict_run:
  "agent_creation_processor ev reg (Json_body (PDict d)) st =
     (case instructions_for d (legacy_agent_name d) of
        Inl e \<Rightarrow> (Inl e, st, [Info_job_received, Info_queue_message, except_diagnostic e])
      | Inr ins \<Rightarrow>
          (case handler_tail ev reg (legacy_agent_name d)
                  (field_or d ''model'' (PStr ''gpt-4.1'')) ins (field_or d ''tools'' (PList [])) st of
             (r, st1, ds) \<Rightarrow>
               (r, st1,
                [Info_job_received, Info_queue_message,
                 Info_creating_agent (legacy_agent_name d) (field_or d ''model'' (PStr ''gpt-4.1'')),
                 Info_tools_requested (field_or d ''tools'' (PList []))] @ ds @
                (case r of Inl e \<Rightarrow> [except_diagnostic e] | Inr u \<Rightarrow> []))))"
  by (cases "instructions_for d (legacy_agent_name d)")
     (simp_all add: agent_creation_processor_def processor_body_dict and_then_emit and_then_lift_Inl
        lift_and_then split: prod.splits sum.splits)

lemma create_agent_calls:
  assumes "create_agent ev reg (Json_body (PDict d)) st = (r, st1, ds)"
  shows "(agent_calls st1 = agent_calls st \<and> r \<noteq> Inr ()) \<or>
         (\<exists>ins tools tr.
            instructions_for d (field_or d ''agent_name'' (PStr ''default-agent'')) = Inr ins \<and>
            agent_calls st1 = agent_calls st @
              [\<lparr>call_model = field_or d ''model'' (PStr ''gpt-4.1''),
                call_name = field_or d ''agent_name'' (PStr ''default-agent''),
                call_instructions = ins, call_tools = tools, call_tool_resources = tr\<rparr>])"
proof (cases "instructions_for d (field_or d ''agent_name'' (PStr ''default-agent''))")
  case (Inl e)
  with assms show ?thesis by (auto simp: create_agent_dict_run)
next
  case (Inr ins)
  obtain r' st' ds' where t: "handler_tail ev reg (field_or d ''agent_name'' (PStr ''default-agent''))
      (field_or d ''model'' (PStr ''gpt-4.1'')) ins (field_or d ''tools'' (PList [])) st = (r', st', ds')"
    by (rule prod_cases3)
  with assms Inr have "r = r'" "st1 = st'" by (simp_all add: create_agent_dict_run)
  with handler_tail_calls[OF t] Inr show ?thesis by auto
qed

lemma processor_calls:
  assumes "agent_creation_processor ev reg (Json_body (PDict d)) st = (r, st1, ds)"
  shows "(agent_calls st1 = agent_calls st \<and> r \<noteq> Inr ()) \<or>
         (\<exists>ins tools tr.
            instructions_for d (legacy_agent_name d) = Inr ins \<and>
            agent_calls st1 = agent_calls st @
              [\<lparr>call_model = field_or d ''model'' (PStr ''gpt-4.1''),
                call_name = legacy_agent_name d,
                call_instructions = ins, call_tools = tools, call_tool_resources = tr\<rparr>])"
proof (cases "instructions_for d (legacy_agent_name d)")
  case (Inl e)
  with assms show ?thesis by (auto simp: processor_dict_run)
next
  case (Inr ins)
  obtain r' st' ds' where t: "handler_tail ev reg (legacy_agent_name d)
      (field_or d ''model'' (PStr ''gpt-4.1'')) ins (field_or d ''tools'' (PList [])) st = (r', st', ds')"
    by (rule prod_cases3)
  with assms Inr have "r = r'" "st1 = st'" by (simp_all add: processor_dict_run)
  with handler_tail_calls[OF t] Inr show ?thesis by auto
qed

lemma create_agent_ok:
  assumes "instructions_for d (field_or d ''agent_name'' (PStr ''default-agent'')) = Inr ins"
    and "resolve_tools ev reg (field_or d ''tools'' (PList [])) st = (Inr (tools, tr), st0, d0)"
    and "agents_api ev \<lparr>call_model = field_or d ''model'' (PStr ''gpt-4.1''),
                         call_name = field_or d ''agent_name'' (PStr ''default-agent''),
                         call_instructions = ins, call_tools = tools, call_tool_resources = tr\<rparr>
           = Inr agent_id"
  shows "\<exists>st1 ds. create_agent ev reg (Json_body (PDict d)) st = (Inr (), st1, ds) \<and>
           agent_calls st1 = agent_calls st @
             [\<lparr>call_model = field_or d ''model'' (PStr ''gpt-4.1''),
               call_name = field_or d ''agent_name'' (PStr ''default-agent''),
               call_instructions = ins, call_tools = tools, call_tool_resources = tr\<rparr>]"
  using handler_tail_ok[OF assms(2,3)] assms(1)
  by (auto simp: create_agent_dict_run)

lemma processor_ok:
  assumes "instructions_for d (legacy_agent_name d) = Inr ins"
    and "resolve_tools ev reg (field_or d ''tools'' (PList [])) st = (Inr (tools, tr), st0, d0)"
    and "agents_api ev \<lparr>call_model = field_or d ''model'' (PStr ''gpt-4.1''),
                         call_name = legacy_agent_name d,
                         call_instructions = ins, call_tools = tools, call_tool_resources = tr\<rparr>
           = Inr agent_id"
  shows "\<exists>st1 ds. agent_creation_processor ev reg (Json_body (PDict d)) st = (Inr (), st1, ds) \<and>
           agent_calls st1 = agent_calls st @
             [\<lparr>call_model = field_or d ''model'' (PStr ''gpt-4.1''),
               call_name = legacy_agent_name d,
               call_instructions = ins, call_tools = tools, call_tool_resources = tr\<rparr>]"
  using handler_tail_ok[OF assms(2,3)] assms(1)
  by (auto simp: processor_dict_run)

lemma map_of_dict_del: "map_of (dict_del k d) k' = (if k' = k then None else map_of d k')"
  by (induction d) auto

lemma field_or_dict_del:
  "field_or (dict_del k d) k' dflt = (if k' = k then dflt else field_or d k' dflt)"
  by (simp add: field_or_def map_of_dict_del)

section \<open>The settings cache over a whole process\<close>

lemma create_agent_not_dict:
  assumes "\<And>d. msg \<noteq> Json_body (PDict d)"
  shows "fst (snd (create_agent ev reg msg st)) = st"
proof (cases msg)
  case (Json_body v)
  from Json_body show ?thesis
  proof (cases v)
    case (PDict d)
    with Json_body assms show ?thesis by blast
  qed (simp_all add: create_agent_def json_loads_def and_then_emit and_then_lift_Inl)
qed (simp_all add: create_agent_def json_loads_def and_then_emit emit_def)

lemma processor_not_dict:
  assumes "\<And>d. msg \<noteq> Json_body (PDict d)"
  shows "fst (snd (agent_creation_processor ev reg msg st)) = st"
proof (cases msg)
  case (Json_body v)
  from Json_body show ?thesis
  proof (cases v)
    case (PDict d)
    with Json_body assms show ?thesis by blast
  qed (simp_all add: agent_creation_processor_def processor_body_def json_loads_def decode_body_def
          and_then_emit and_then_lift_Inl lift_and_then)
qed (simp_all add: agent_creation_processor_def processor_body_def json_loads_def decode_body_def
       and_then_emit and_then_lift_Inl lift_and_then)

lemma create_agent_keeps_settings:
  assumes "settings_cache st = Some obj"
  shows "settings_cache (fst (snd (create_agent ev reg msg st))) = Some obj"
proof (cases "\<exists>d. msg = Json_body (PDict d)")
  case True
  then obtain d where msg: "msg = Json_body (PDict d)" by blast
  show ?thesis
  proof (cases "instructions_for d (field_or d ''agent_name'' (PStr ''default-agent''))")
    case (Inl e)
    with msg assms show ?thesis by (simp add: create_agent_dict_run)
  next
    case (Inr ins)
    obtain r' st' ds' where t: "handler_tail ev reg (field_or d ''agent_name'' (PStr ''default-agent''))
        (field_or d ''model'' (PStr ''gpt-4.1'')) ins (field_or d ''tools'' (PList [])) st = (r', st', ds')"
      by (rule prod_cases3)
    from handler_tail_keeps_settings[OF assms, of ev reg _ _ ins] t
    have "settings_cache st' = Some obj" by (metis fst_conv snd_conv)
    with msg Inr t show ?thesis by (simp add: create_agent_dict_run)
  qed
next
  case False
  then have "fst (snd (create_agent ev reg msg st)) = st"
    by (intro create_agent_not_dict) blast
  with assms show ?thesis by simp
qed

lemma processor_keeps_settings:
  assumes "settings_cache st = Some obj"
  shows "settings_cache (fst (snd (agent_creation_processor ev reg msg st))) = Some obj"
proof (cases "\<exists>d. msg = Json_body (PDict d)")
  case True
  then obtain d where msg: "msg = Json_body (PDict d)" by blast
  show ?thesis
  proof (cases "instructions_for d (legacy_agent_name d)")
    case (Inl e)
    with msg assms show ?thesis by (simp add: processor_dict_run)
  next
    case (Inr ins)
    obtain r' st' ds' where t: "handler_tail ev reg (legacy_agent_name d)
        (field_or d ''model'' (PStr ''gpt-4.1'')) ins (field_or d ''tools'' (PList [])) st = (r', st', ds')"
      by (rule prod_cases3)
    from handler_tail_keeps_settings[OF assms, of ev reg _ _ ins] t
    have "settings_cache st' = Some obj" by (metis fst_conv snd_conv)
    with msg Inr t show ?thesis by (simp add: processor_dict_run)
  qed
next
  case False
  then have "fst (snd (agent_creation_processor ev reg msg st)) = st"
    by (intro processor_not_dict) blast
  with assms show ?thesis by simp
qed

lemma run_call_keeps_settings:
  assumes "settings_cache st = Some obj"
  shows "settings_cache (run_call ev reg c st) = Some obj"
proof (cases c)
  case (Call_get_secret n uc)
  obtain r st1 ds where g: "get_secret ev n uc st = (r, st1, ds)" by (rule prod_cases3)
  from get_secret_frame(1)[OF g] g assms Call_get_secret show ?thesis by simp
next
  case Call_clear_cache
  with assms show ?thesis by (simp add: clear_cache_def)
next
  case Call_get_settings
  with assms show ?thesis by (simp add: get_settings_hit)
next
  case (Call_resolve_tools names)
  with assms show ?thesis by (simp add: resolve_tools_state get_settings_hit)
next
  case Call_get_project_client
  with get_project_client_ready[OF assms, of ev] show ?thesis by auto
next
  case (Call_create_agent msg)
  with create_agent_keeps_settings[OF assms] show ?thesis by simp
next
  case (Call_agent_creation_processor msg)
  with processor_keeps_settings[OF assms] show ?thesis by simp
qed

lemma run_calls_keeps_settings:
  assumes "settings_cache st = Some obj"
  shows "settings_cache (run_calls cs st) = Some obj"
  using assms
proof (induction cs arbitrary: st)
  case Nil
  then show ?case by simp
next
  case (Cons c cs)
  obtain ev reg pc where c: "c = (ev, reg, pc)" by (rule prod_cases3)
  from Cons.IH[OF run_call_keeps_settings[OF Cons.prems, of ev reg pc]] c show ?case by simp
qed

section \<open>The claims\<close>

lemma example_get_settings:
  "get_settings example_env initial_state =
     (Inr (0, example_settings), resolved_state,
      [Debug_fetched_secret ''foundry-project-endpoint'',
       Debug_fetched_secret ''ai-search-connection-id'',
       Debug_fetched_secret ''ai-search-index-name'',
       Debug_fetched_secret ''mcp-connection-id''])"
  by (simp add: get_settings_def Settings_init_def and_then_def get_secret_def get_client_def
      initial_state_def example_env_def example_settings_def resolved_state_def
      akv_build_credential_def KV_FOUNDRY_PROJECT_ENDPOINT_def KV_AI_SEARCH_CONNECTION_ID_def
      KV_AI_SEARCH_INDEX_NAME_def KV_MCP_CONNECTION_ID_def AGENT_QUEUE_NAME_def Let_def)

lemma default_prompt: "get_prompt (PStr ''default-agent'') =
    Inr ''You are a helpful AI assistant powered by Azure AI Foundry.''"
  by (simp add: get_prompt_def AGENT_PROMPTS_def)

lemma doc_bot_prompt: "get_prompt (PStr ''doc-bot'') =
    Inr (''You are a documentation assistant. '' @
         ''Use the connected AI Search index to find relevant documentation, '' @
         ''then provide clear, concise answers with source references. '' @
         ''If the answer is not in the index, say so honestly.'')"
  by (simp add: get_prompt_def AGENT_PROMPTS_def)

lemma resolve_tools_empty:
  assumes "get_settings ev st = (Inr obj, st1, ds1)"
  shows "resolve_tools ev reg (PList []) st = (Inr ([], []), st1, ds1)"
  by (simp add: resolve_tools_run[OF assms])

text \<open>
  Claim C1. Whenever the settings snapshot resolves and the values that two or more
  resolved entries declare under one top-level key are dicts of lists, \<open>resolve_tools\<close>
  returns, and in the merged resources a key nobody declares is absent, a key declared by
  exactly one entry holds that entry's value as it is, and a key declared by several
  entries holds a dict that maps every sub-key to the concatenation, in input order, of
  the lists the entries declare for it.
\<close>

theorem resolve_tools_merges_in_input_order:
  assumes settings: "get_settings ev st = (Inr obj, st1, ds1)"
    and coll: "colliding_ok (all_items reg (snd obj) names)"
  shows "\<exists>tools res ds.
      resolve_tools ev reg (PList (map PStr names)) st = (Inr (tools, res), st1, ds) \<and>
      (\<forall>k. declared k (all_items reg (snd obj) names) = [] \<longrightarrow> map_of res k = None) \<and>
      (\<forall>k v. declared k (all_items reg (snd obj) names) = [v] \<longrightarrow> map_of res k = Some v) \<and>
      (\<forall>k. 2 \<le> length (declared k (all_items reg (snd obj) names)) \<longrightarrow>
           (\<exists>d. map_of res k = Some (PDict d) \<and>
                (\<forall>sk. map_of d sk = merged_sub (declared k (all_items reg (snd obj) names)) sk)))"
proof -
  from coll have "colliding_ok ([] @ all_items reg (snd obj) names)" by simp
  from resolve_loop_tracks[OF tracks_empty this, of "[]"] obtain res where
    loop: "resolve_loop reg (snd obj) (map PStr names) [] [] =
            (Inr (map tool_def (resolved_entries reg (snd obj) names), res),
             loop_diagnostics reg (snd obj) names)"
    and tr: "tracks res (all_items reg (snd obj) names)" by auto
  have run: "resolve_tools ev reg (PList (map PStr names)) st =
     (Inr (map tool_def (resolved_entries reg (snd obj) names), res), st1,
      ds1 @ loop_diagnostics reg (snd obj) names)"
    by (simp add: resolve_tools_run[OF settings] loop)
  from tr have
    "(\<forall>k. declared k (all_items reg (snd obj) names) = [] \<longrightarrow> map_of res k = None) \<and>
      (\<forall>k v. declared k (all_items reg (snd obj) names) = [v] \<longrightarrow> map_of res k = Some v) \<and>
      (\<forall>k. 2 \<le> length (declared k (all_items reg (snd obj) names)) \<longrightarrow>
           (\<exists>d. map_of res k = Some (PDict d) \<and>
                (\<forall>sk. map_of d sk = merged_sub (declared k (all_items reg (snd obj) names)) sk)))"
    unfolding tracks_def rep_merged_def by blast
  with run show ?thesis by blast
qed

theorem resolve_tools_merges_in_input_order_witness:
  "get_settings example_env initial_state =
     (Inr (0, example_settings), resolved_state,
      [Debug_fetched_secret ''foundry-project-endpoint'',
       Debug_fetched_secret ''ai-search-connection-id'',
       Debug_fetched_secret ''ai-search-index-name'',
       Debug_fetched_secret ''mcp-connection-id''])
   \<and> colliding_ok (all_items example_registry example_settings [''search_a'', ''search_b''])
   \<and> declared ''x'' (all_items example_registry example_settings [''search_a'', ''search_b'']) =
       [PDict [(''items'', PList [PInt 1])], PDict [(''items'', PList [PInt 2])]]
   \<and> merged_sub (declared ''x'' (all_items example_registry example_settings [''search_a'', ''search_b'']))
        ''items'' = Some (PList [PInt 1, PInt 2])
   \<and> fst (resolve_tools example_env example_registry (PList (map PStr [''search_a'', ''search_b'']))
           initial_state) =
       Inr ([PDict [(''type'', PStr ''search_a'')], PDict [(''type'', PStr ''search_b'')]],
            [(''x'', PDict [(''items'', PList [PInt 1, PInt 2])])])"
proof -
  have items: "all_items example_registry example_settings [''search_a'', ''search_b''] =
      [(''x'', PDict [(''items'', PList [PInt 1])]), (''x'', PDict [(''items'', PList [PInt 2])])]"
    by (simp add: all_items_def resolved_entries_def List.map_filter_def example_registry_def)
  have coll: "colliding_ok (all_items example_registry (snd (0::nat, example_settings)) [''search_a'', ''search_b''])"
    by (simp add: items colliding_ok_def declared_def)
  have decl: "declared ''x'' (all_items example_registry example_settings [''search_a'', ''search_b'']) =
       [PDict [(''items'', PList [PInt 1])], PDict [(''items'', PList [PInt 2])]]"
    by (simp add: items declared_def)
  have merged: "merged_sub (declared ''x'' (all_items example_registry example_settings [''search_a'', ''search_b'']))
        ''items'' = Some (PList [PInt 1, PInt 2])"
    by (simp add: decl merged_sub_def List.map_filter_def)
  have run: "fst (resolve_tools example_env example_registry (PList (map PStr [''search_a'', ''search_b'']))
           initial_state) =
       Inr ([PDict [(''type'', PStr ''search_a'')], PDict [(''type'', PStr ''search_b'')]],
            [(''x'', PDict [(''items'', PList [PInt 1, PInt 2])])])"
    by (simp add: resolve_tools_run[OF example_get_settings] example_registry_def)
  from resolve_tools_merges_in_input_order[OF example_get_settings coll]
  show ?thesis using example_get_settings coll decl merged run by simp
qed

text \<open>
  Claim C2. When the settings snapshot resolves and every name of the input list is a key
  of \<open>TOOL_REGISTRY\<close>, \<open>resolve_tools\<close> returns a list of tool definitions as long as
  the input whose i-th element is the definition built for the i-th name, repeated names
  included.
\<close>

theorem resolve_tools_preserves_order:
  assumes settings: "get_settings ev st = (Inr obj, st1, ds1)"
    and known: "\<forall>n\<in>set names. map_of TOOL_REGISTRY n \<noteq> None"
  shows "\<exists>tools res ds.
      resolve_tools ev TOOL_REGISTRY (PList (map PStr names)) st = (Inr (tools, res), st1, ds) \<and>
      length tools = length names \<and>
      map Some tools = map (tool_def_for TOOL_REGISTRY (snd obj)) names"
proof -
  have "colliding_ok ([] @ all_items TOOL_REGISTRY (snd obj) names)"
    by (simp add: TOOL_REGISTRY_colliding_ok)
  from resolve_loop_tracks[OF tracks_empty this, of "[]"] obtain res where
    loop: "resolve_loop TOOL_REGISTRY (snd obj) (map PStr names) [] [] =
            (Inr (map tool_def (resolved_entries TOOL_REGISTRY (snd obj) names), res),
             loop_diagnostics TOOL_REGISTRY (snd obj) names)" by auto
  let ?tools = "map tool_def (resolved_entries TOOL_REGISTRY (snd obj) names)"
  have run: "resolve_tools ev TOOL_REGISTRY (PList (map PStr names)) st =
     (Inr (?tools, res), st1, ds1 @ loop_diagnostics TOOL_REGISTRY (snd obj) names)"
    by (simp add: resolve_tools_run[OF settings] loop)
  have defs: "map Some ?tools = map (tool_def_for TOOL_REGISTRY (snd obj)) names"
    by (rule resolved_defs_known[OF known])
  then have "length (map Some ?tools) = length (map (tool_def_for TOOL_REGISTRY (snd obj)) names)"
    by simp
  then have len: "length ?tools = length names" by simp
  from run len defs show ?thesis by blast
qed

theorem resolve_tools_preserves_order_witness:
  "get_settings example_env initial_state =
     (Inr (0, example_settings), resolved_state,
      [Debug_fetched_secret ''foundry-project-endpoint'',
       Debug_fetched_secret ''ai-search-connection-id'',
       Debug_fetched_secret ''ai-search-index-name'',
       Debug_fetched_secret ''mcp-connection-id''])
   \<and> list_all (\<lambda>n. map_of TOOL_REGISTRY n \<noteq> None) [''ai_search'', ''code_interpreter'', ''ai_search'']
   \<and> (\<exists>tools res ds.
        resolve_tools example_env TOOL_REGISTRY
          (PList (map PStr [''ai_search'', ''code_interpreter'', ''ai_search''])) initial_state =
          (Inr (tools, res), resolved_state, ds) \<and>
        length tools = 3 \<and>
        tools = [PDict [(''type'', PStr ''azure_ai_search'')],
                 PDict [(''type'', PStr ''code_interpreter'')],
                 PDict [(''type'', PStr ''azure_ai_search'')]])"
proof -
  have known: "\<forall>n\<in>set [''ai_search'', ''code_interpreter'', ''ai_search'']. map_of TOOL_REGISTRY n \<noteq> None"
    by (simp add: TOOL_REGISTRY_def)
  have defs: "map (tool_def_for TOOL_REGISTRY (snd (0::nat, example_settings)))
                [''ai_search'', ''code_interpreter'', ''ai_search''] =
              map Some [PDict [(''type'', PStr ''azure_ai_search'')],
                        PDict [(''type'', PStr ''code_interpreter'')],
                        PDict [(''type'', PStr ''azure_ai_search'')]]"
    by (simp add: tool_def_for_def TOOL_REGISTRY_def build_ai_search_def build_code_interpreter_def)
  from resolve_tools_preserves_order[OF example_get_settings known] obtain tools res ds where
    run: "resolve_tools example_env TOOL_REGISTRY
            (PList (map PStr [''ai_search'', ''code_interpreter'', ''ai_search''])) initial_state =
          (Inr (tools, res), resolved_state, ds)"
    and len: "length tools = length [''ai_search'', ''code_interpreter'', ''ai_search'']"
    and tools: "map Some tools = map (tool_def_for TOOL_REGISTRY (snd (0::nat, example_settings)))
                  [''ai_search'', ''code_interpreter'', ''ai_search'']"
    by blast
  from tools defs have "map Some tools = map Some [PDict [(''type'', PStr ''azure_ai_search'')],
                        PDict [(''type'', PStr ''code_interpreter'')],
                        PDict [(''type'', PStr ''azure_ai_search'')]]" by simp
  then have "tools = [PDict [(''type'', PStr ''azure_ai_search'')],
                        PDict [(''type'', PStr ''code_interpreter'')],
                        PDict [(''type'', PStr ''azure_ai_search'')]]"
    by (simp only: inj_map_eq_map[OF inj_Some])
  with run len example_get_settings known show ?thesis
    by (simp add: list_all_iff)
qed

text \<open>
  Claim C3. For any registry and any list of names, \<open>resolve_tools\<close> gives the same
  result (the same two structures, or the same exception) and leaves the same state as on
  the list with the unregistered names removed, and what it logs differs only by the
  unknown-tool diagnostics. When it returns, it has logged exactly one such diagnostic
  for each unregistered name, in input order. A list of unregistered names only, with the
  settings resolved, yields two empty structures.
\<close>

theorem resolve_tools_skips_unknown:
  "fst (resolve_tools ev reg (PList (map PStr names)) st) =
     fst (resolve_tools ev reg (PList (map PStr (known_names reg names))) st)
   \<and> fst (snd (resolve_tools ev reg (PList (map PStr names)) st)) =
     fst (snd (resolve_tools ev reg (PList (map PStr (known_names reg names))) st))
   \<and> filter (\<lambda>d. \<not> is_unknown_tool d) (snd (snd (resolve_tools ev reg (PList (map PStr names)) st))) =
     snd (snd (resolve_tools ev reg (PList (map PStr (known_names reg names))) st))
   \<and> (\<forall>out. fst (resolve_tools ev reg (PList (map PStr names)) st) = Inr out \<longrightarrow>
         filter is_unknown_tool (snd (snd (resolve_tools ev reg (PList (map PStr names)) st))) =
         map (\<lambda>n. Error_unknown_tool (PStr n) (map fst reg)) (unknown_names reg names))
   \<and> (\<forall>obj st1 ds1. get_settings ev st = (Inr obj, st1, ds1) \<and> known_names reg names = [] \<longrightarrow>
         fst (resolve_tools ev reg (PList (map PStr names)) st) = Inr ([], []))"
proof -
  obtain r0 st0 d0 where g: "get_settings ev st = (r0, st0, d0)"
    by (cases "get_settings ev st") auto
  have debug: "list_all is_fetch_debug d0" by (rule get_settings_frame(3)[OF g])
  have keep: "filter (\<lambda>d. \<not> is_unknown_tool d) d0 = d0"
    using debug by (induction d0) (auto simp: is_fetch_debug_def split: diagnostic.splits)
  have drop: "filter is_unknown_tool d0 = []"
    using debug by (induction d0) (auto simp: is_fetch_debug_def split: diagnostic.splits)
  show ?thesis
  proof (cases r0)
    case (Inl e)
    with g have "\<And>x. resolve_tools ev reg x st = (Inl e, st0, d0)"
      by (simp add: resolve_tools_fail)
    with g Inl keep show ?thesis by simp
  next
    case (Inr obj)
    with g have g': "get_settings ev st = (Inr obj, st0, d0)" by simp
    note skip = resolve_loop_skips_unknown[of reg "snd obj" names "[]" "[]", folded known_names_def]
    have success: "snd (resolve_loop reg (snd obj) (map PStr names) [] []) =
            loop_diagnostics reg (snd obj) names"
      if "fst (resolve_loop reg (snd obj) (map PStr names) [] []) = Inr out" for out
      using that by (rule resolve_loop_success_diagnostics)
    show ?thesis
      using skip success
      by (auto simp: resolve_tools_run[OF g'] keep drop unknown_loop_diagnostics)
  qed
qed

theorem resolve_tools_skips_unknown_witness:
  "get_settings example_env initial_state =
     (Inr (0, example_settings), resolved_state,
      [Debug_fetched_secret ''foundry-project-endpoint'',
       Debug_fetched_secret ''ai-search-connection-id'',
       Debug_fetched_secret ''ai-search-index-name'',
       Debug_fetched_secret ''mcp-connection-id''])
   \<and> known_names TOOL_REGISTRY [''ai_search'', ''unknown_tool''] = [''ai_search'']
   \<and> unknown_names TOOL_REGISTRY [''ai_search'', ''unknown_tool''] = [''unknown_tool'']
   \<and> fst (resolve_tools example_env TOOL_REGISTRY (PList (map PStr [''ai_search'', ''unknown_tool'']))
           initial_state) =
       Inr ([PDict [(''type'', PStr ''azure_ai_search'')]],
            [(''azure_ai_search'',
              PDict [(''indexes'',
                      PList [PDict [(''index_connection_id'', PStr ''value-of-ai-search-connection-id''),
                                    (''index_name'', PStr ''value-of-ai-search-index-name'')]])])])
   \<and> fst (resolve_tools example_env TOOL_REGISTRY (PList (map PStr [''ai_search'', ''unknown_tool'']))
           initial_state) =
     fst (resolve_tools example_env TOOL_REGISTRY (PList (map PStr [''ai_search''])) initial_state)
   \<and> filter is_unknown_tool
        (snd (snd (resolve_tools example_env TOOL_REGISTRY
                     (PList (map PStr [''ai_search'', ''unknown_tool''])) initial_state))) =
       [Error_unknown_tool (PStr ''unknown_tool'')
          [''ai_search'', ''microsoft_learn_mcp'', ''code_interpreter'']]
   \<and> known_names TOOL_REGISTRY [''nope'', ''neither''] = []
   \<and> fst (resolve_tools example_env TOOL_REGISTRY (PList (map PStr [''nope'', ''neither'']))
           initial_state) = Inr ([], [])"
proof -
  have kn: "known_names TOOL_REGISTRY [''ai_search'', ''unknown_tool''] = [''ai_search'']"
    and un: "unknown_names TOOL_REGISTRY [''ai_search'', ''unknown_tool''] = [''unknown_tool'']"
    and none: "known_names TOOL_REGISTRY [''nope'', ''neither''] = []"
    and keys: "map fst TOOL_REGISTRY = [''ai_search'', ''microsoft_learn_mcp'', ''code_interpreter'']"
    by (simp_all add: known_names_def unknown_names_def TOOL_REGISTRY_def)
  have run: "fst (resolve_tools example_env TOOL_REGISTRY (PList (map PStr [''ai_search''])) initial_state) =
       Inr ([PDict [(''type'', PStr ''azure_ai_search'')]],
            [(''azure_ai_search'',
              PDict [(''indexes'',
                      PList [PDict [(''index_connection_id'', PStr ''value-of-ai-search-connection-id''),
                                    (''index_name'', PStr ''value-of-ai-search-index-name'')]])])])"
    by (simp add: resolve_tools_run[OF example_get_settings] TOOL_REGISTRY_def build_ai_search_def
        example_settings_def)
  note thm1 = resolve_tools_skips_unknown[of example_env TOOL_REGISTRY "[''ai_search'', ''unknown_tool'']"
      initial_state, unfolded kn un keys]
  note thm2 = resolve_tools_skips_unknown[of example_env TOOL_REGISTRY "[''nope'', ''neither'']"
      initial_state, unfolded none]
  from thm1 have same: "fst (resolve_tools example_env TOOL_REGISTRY
        (PList (map PStr [''ai_search'', ''unknown_tool''])) initial_state) =
      fst (resolve_tools example_env TOOL_REGISTRY (PList (map PStr [''ai_search''])) initial_state)"
    by blast
  from thm1 same run have logged: "filter is_unknown_tool
        (snd (snd (resolve_tools example_env TOOL_REGISTRY
                     (PList (map PStr [''ai_search'', ''unknown_tool''])) initial_state))) =
       [Error_unknown_tool (PStr ''unknown_tool'')
          [''ai_search'', ''microsoft_learn_mcp'', ''code_interpreter'']]"
    by simp
  from thm2 example_get_settings
  have empty: "fst (resolve_tools example_env TOOL_REGISTRY (PList (map PStr [''nope'', ''neither'']))
           initial_state) = Inr ([], [])"
    by blast
  from example_get_settings kn un same run logged none empty show ?thesis by simp
qed

text \<open>
  Claim C4. A call of \<open>get_settings\<close> that finds its cache empty and returns has
  constructed the instance it returns, a new object. After any call of \<open>get_settings\<close>
  that returned an instance, every later call, after any sequence of calls of the public
  operations in any environments, returns that same object with the same identity and
  changes nothing. After \<open>clear_cache\<close>, a run of lookups sends the store at most one
  request for a name, and, when it returns, exactly one request for each distinct name it
  looked up; so does a construction of \<open>Settings\<close> that returns.
\<close>

theorem get_settings_cached_instance:
  "(settings_cache st = None \<and> get_settings ev st = (Inr obj, st1, ds) \<longrightarrow>
       fst obj = next_id st \<and>
       (\<exists>st0. Settings_init ev st = (Inr obj, st0, ds) \<and> st1 = st0\<lparr>settings_cache := Some obj\<rparr>))
   \<and> (get_settings ev st = (Inr obj, st1, ds) \<longrightarrow>
       (\<forall>calls ev'. get_settings ev' (run_calls calls st1) = (Inr obj, run_calls calls st1, [])))
   \<and> (get_secrets ev names (clear_cache st) = (r, st2, ds2) \<longrightarrow>
       (\<exists>cs. store_calls st2 = store_calls st @ cs \<and> distinct cs \<and> set cs \<subseteq> set names \<and>
             (\<forall>vs. r = Inr vs \<longrightarrow> set cs = set names)))
   \<and> (Settings_init ev (clear_cache st) = (Inr obj', st3, ds3) \<longrightarrow>
       (\<exists>cs. store_calls st3 = store_calls st @ cs \<and> distinct cs \<and> set cs = set settings_secret_names))"
proof (intro conjI impI)
  assume a: "settings_cache st = None \<and> get_settings ev st = (Inr obj, st1, ds)"
  obtain r0 st0 d0 where i: "Settings_init ev st = (r0, st0, d0)" by (rule prod_cases3)
  from a i have "r0 = Inr obj" "ds = d0" "st1 = st0\<lparr>settings_cache := Some obj\<rparr>"
    by (cases r0; simp add: get_settings_def)+
  with i show "\<exists>st0. Settings_init ev st = (Inr obj, st0, ds) \<and> st1 = st0\<lparr>settings_cache := Some obj\<rparr>"
    by simp
  from a get_settings_effect[of ev st "Inr obj" st1 ds] show "fst obj = next_id st" by simp
next
  assume "get_settings ev st = (Inr obj, st1, ds)"
  then have "settings_cache st1 = Some obj" by (rule get_settings_Inr)
  then have "settings_cache (run_calls calls st1) = Some obj" for calls
    by (rule run_calls_keeps_settings)
  then show "\<forall>calls ev'. get_settings ev' (run_calls calls st1) = (Inr obj, run_calls calls st1, [])"
    by (simp add: get_settings_hit)
next
  assume "get_secrets ev names (clear_cache st) = (r, st2, ds2)"
  from get_secrets_calls[OF this]
  show "\<exists>cs. store_calls st2 = store_calls st @ cs \<and> distinct cs \<and> set cs \<subseteq> set names \<and>
             (\<forall>vs. r = Inr vs \<longrightarrow> set cs = set names)"
    by (auto simp: clear_cache_def)
next
  assume i: "Settings_init ev (clear_cache st) = (Inr obj', st3, ds3)"
  obtain r0 st0 d0 where g: "get_secrets ev settings_secret_names (clear_cache st) = (r0, st0, d0)"
    by (rule prod_cases3)
  from i Settings_init_run[OF g] obtain vs where r0: "r0 = Inr vs"
    and st3: "st3 = st0\<lparr>next_id := Suc (next_id st0)\<rparr>"
    by (cases r0) auto
  from get_secrets_calls[OF g] r0 st3
  show "\<exists>cs. store_calls st3 = store_calls st @ cs \<and> distinct cs \<and> set cs = set settings_secret_names"
    by (auto simp: clear_cache_def)
qed

theorem get_settings_cached_instance_witness:
  "settings_cache initial_state = None
   \<and> get_settings example_env initial_state =
     (Inr (0, example_settings), resolved_state,
      [Debug_fetched_secret ''foundry-project-endpoint'',
       Debug_fetched_secret ''ai-search-connection-id'',
       Debug_fetched_secret ''ai-search-index-name'',
       Debug_fetched_secret ''mcp-connection-id''])
   \<and> next_id initial_state = 0
   \<and> get_settings failing_env
        (run_calls [(rotated_env, TOOL_REGISTRY, Call_clear_cache),
                    (rotated_env, TOOL_REGISTRY, Call_get_secret ''mcp-connection-id'' True),
                    (failing_env, TOOL_REGISTRY, Call_get_settings)] resolved_state) =
       (Inr (0, example_settings),
        run_calls [(rotated_env, TOOL_REGISTRY, Call_clear_cache),
                   (rotated_env, TOOL_REGISTRY, Call_get_secret ''mcp-connection-id'' True),
                   (failing_env, TOOL_REGISTRY, Call_get_settings)] resolved_state, [])
   \<and> fst (get_secrets example_env [''a'', ''b'', ''a''] (clear_cache resolved_state)) =
       Inr [''value-of-a'', ''value-of-b'', ''value-of-a'']
   \<and> store_calls (fst (snd (get_secrets example_env [''a'', ''b'', ''a''] (clear_cache resolved_state)))) =
       store_calls resolved_state @ [''a'', ''b'']"
proof -
  have empty: "settings_cache initial_state = None" and zero: "next_id initial_state = 0"
    by (simp_all add: initial_state_def)
  have run: "get_secrets example_env [''a'', ''b'', ''a''] (clear_cache resolved_state) =
      (Inr [''value-of-a'', ''value-of-b'', ''value-of-a''],
       resolved_state\<lparr>secret_cache := [(''a'', ''value-of-a''), (''b'', ''value-of-b'')],
          store_calls := store_calls resolved_state @ [''a'', ''b'']\<rparr>,
       [Debug_fetched_secret ''a'', Debug_fetched_secret ''b''])"
    by (simp add: and_then_def lift_def get_secret_def get_client_def clear_cache_def
        resolved_state_def example_env_def Let_def)
  note inst = get_settings_cached_instance[of initial_state example_env "(0, example_settings)"
      resolved_state _ "[''a'', ''b'', ''a'']"]
  from inst example_get_settings
  have later: "get_settings failing_env
        (run_calls [(rotated_env, TOOL_REGISTRY, Call_clear_cache),
                    (rotated_env, TOOL_REGISTRY, Call_get_secret ''mcp-connection-id'' True),
                    (failing_env, TOOL_REGISTRY, Call_get_settings)] resolved_state) =
       (Inr (0, example_settings),
        run_calls [(rotated_env, TOOL_REGISTRY, Call_clear_cache),
                   (rotated_env, TOOL_REGISTRY, Call_get_secret ''mcp-connection-id'' True),
                   (failing_env, TOOL_REGISTRY, Call_get_settings)] resolved_state, [])"
    by blast
  from empty zero example_get_settings later run show ?thesis by simp
qed

text \<open>
  Claim C5. Let the store answer the request for \<open>name\<close> with the exception \<open>e\<close>, and
  let the secret client be available. Then \<open>get_secret\<close>, unless it serves \<open>name\<close> from
  the cache, raises exactly \<open>e\<close> after exactly one request for \<open>name\<close> and leaves the
  cache as it was. If \<open>name\<close> is one of the four secrets of \<open>Settings\<close>, is not cached,
  and the fields before it can be resolved, then constructing \<open>Settings\<close> raises \<open>e\<close>
  after one request for \<open>name\<close>, and so does \<open>get_settings\<close>, which caches nothing.
\<close>

theorem secret_failure_propagates:
  assumes store: "vault ev name = Inl e" and client: "client_available ev st"
  shows "((use_cache \<longrightarrow> map_of (secret_cache st) name = None) \<longrightarrow>
            (\<exists>st1. get_secret ev name use_cache st = (Inl e, st1, [])
                \<and> store_calls st1 = store_calls st @ [name]
                \<and> secret_cache st1 = secret_cache st))
       \<and> (settings_secret_names = pre @ name # post
            \<and> map_of (secret_cache st) name = None
            \<and> (\<forall>m\<in>set pre. secret_available ev st m) \<longrightarrow>
            (\<exists>st1 ds cs. Settings_init ev st = (Inl e, st1, ds)
                \<and> store_calls st1 = store_calls st @ cs @ [name] \<and> name \<notin> set cs
                \<and> (settings_cache st = None \<longrightarrow>
                      get_settings ev st = (Inl e, st1, ds) \<and> settings_cache st1 = None)))"
proof (intro conjI impI)
  assume "use_cache \<longrightarrow> map_of (secret_cache st) name = None"
  from get_secret_fails[OF store client this]
  show "\<exists>st1. get_secret ev name use_cache st = (Inl e, st1, [])
                \<and> store_calls st1 = store_calls st @ [name]
                \<and> secret_cache st1 = secret_cache st" by blast
next
  assume a: "settings_secret_names = pre @ name # post
            \<and> map_of (secret_cache st) name = None
            \<and> (\<forall>m\<in>set pre. secret_available ev st m)"
  then have none: "map_of (secret_cache st) name = None"
    and avail: "\<forall>m\<in>set pre. secret_available ev st m"
    and names: "settings_secret_names = pre @ name # post" by simp_all
  from get_secrets_fail[OF store client none avail, of post] obtain st1 ds cs where
    run: "get_secrets ev settings_secret_names st = (Inl e, st1, ds)" and
    calls: "store_calls st1 = store_calls st @ cs @ [name]" "name \<notin> set cs" and
    fr: "settings_cache st1 = settings_cache st"
    by (auto simp: names)
  have init: "Settings_init ev st = (Inl e, st1, ds)"
    by (simp add: Settings_init_run[OF run])
  have cached: "settings_cache st = None \<longrightarrow>
      get_settings ev st = (Inl e, st1, ds) \<and> settings_cache st1 = None"
    using init fr by (simp add: get_settings_def)
  show "\<exists>st1 ds cs. Settings_init ev st = (Inl e, st1, ds)
                \<and> store_calls st1 = store_calls st @ cs @ [name] \<and> name \<notin> set cs
                \<and> (settings_cache st = None \<longrightarrow>
                      get_settings ev st = (Inl e, st1, ds) \<and> settings_cache st1 = None)"
    using init calls cached by (intro exI[of _ st1] exI[of _ ds] exI[of _ cs]) simp
qed

theorem secret_failure_propagates_witness:
  "vault failing_env KV_AI_SEARCH_INDEX_NAME = Inl ResourceNotFoundError
   \<and> client_available failing_env initial_state
   \<and> map_of (secret_cache initial_state) KV_AI_SEARCH_INDEX_NAME = None
   \<and> settings_secret_names =
       [KV_FOUNDRY_PROJECT_ENDPOINT, KV_AI_SEARCH_CONNECTION_ID] @ KV_AI_SEARCH_INDEX_NAME # [KV_MCP_CONNECTION_ID]
   \<and> list_all (secret_available failing_env initial_state)
       [KV_FOUNDRY_PROJECT_ENDPOINT, KV_AI_SEARCH_CONNECTION_ID]
   \<and> settings_cache initial_state = None
   \<and> fst (get_secret failing_env KV_AI_SEARCH_INDEX_NAME True initial_state) = Inl ResourceNotFoundError
   \<and> store_calls (fst (snd (get_secret failing_env KV_AI_SEARCH_INDEX_NAME True initial_state))) =
       [''ai-search-index-name'']
   \<and> fst (get_settings failing_env initial_state) = Inl ResourceNotFoundError
   \<and> settings_cache (fst (snd (get_settings failing_env initial_state))) = None
   \<and> store_calls (fst (snd (get_settings failing_env initial_state))) =
       [''foundry-project-endpoint'', ''ai-search-connection-id'', ''ai-search-index-name'']"
proof -
  have store: "vault failing_env KV_AI_SEARCH_INDEX_NAME = Inl ResourceNotFoundError"
    by (simp add: failing_env_def KV_AI_SEARCH_INDEX_NAME_def)
  have client: "client_available failing_env initial_state"
    by (simp add: client_available_def failing_env_def)
  have none: "map_of (secret_cache initial_state) KV_AI_SEARCH_INDEX_NAME = None"
    and uncached: "settings_cache initial_state = None"
    by (simp_all add: initial_state_def)
  have names: "settings_secret_names =
       [KV_FOUNDRY_PROJECT_ENDPOINT, KV_AI_SEARCH_CONNECTION_ID] @ KV_AI_SEARCH_INDEX_NAME # [KV_MCP_CONNECTION_ID]"
    by (simp add: settings_secret_names_def)
  have avail: "\<forall>m\<in>set [KV_FOUNDRY_PROJECT_ENDPOINT, KV_AI_SEARCH_CONNECTION_ID].
      secret_available failing_env initial_state m"
    by (simp add: secret_available_def failing_env_def KV_FOUNDRY_PROJECT_ENDPOINT_def
        KV_AI_SEARCH_CONNECTION_ID_def)
  note inst = secret_failure_propagates[OF store client, of True
      "[KV_FOUNDRY_PROJECT_ENDPOINT, KV_AI_SEARCH_CONNECTION_ID]" "[KV_MCP_CONNECTION_ID]"]
  from inst none obtain st1 where
    g: "get_secret failing_env KV_AI_SEARCH_INDEX_NAME True initial_state =
          (Inl ResourceNotFoundError, st1, [])"
    and gc: "store_calls st1 = store_calls initial_state @ [KV_AI_SEARCH_INDEX_NAME]"
    by blast
  from inst names none avail uncached obtain st2 ds where
    s: "get_settings failing_env initial_state = (Inl ResourceNotFoundError, st2, ds)"
    and sc: "settings_cache st2 = None"
    by blast
  have calls: "store_calls (fst (snd (get_settings failing_env initial_state))) =
       [''foundry-project-endpoint'', ''ai-search-connection-id'', ''ai-search-index-name'']"
    by (simp add: get_settings_def Settings_init_def and_then_def get_secret_def get_client_def
      initial_state_def failing_env_def akv_build_credential_def KV_FOUNDRY_PROJECT_ENDPOINT_def
      KV_AI_SEARCH_CONNECTION_ID_def KV_AI_SEARCH_INDEX_NAME_def KV_MCP_CONNECTION_ID_def Let_def)
  from store client none names avail uncached g gc s sc calls show ?thesis
    by (simp add: list_all_iff initial_state_def KV_AI_SEARCH_INDEX_NAME_def)
qed

text \<open>
  Claim C6. On the message \<^verbatim>\<open>{}\<close>, when the settings snapshot resolves and the agent
  service accepts the request, either handler returns normally after sending exactly one
  create-agent request: model \<^verbatim>\<open>gpt-4.1\<close>, name \<^verbatim>\<open>default-agent\<close>, the prompt the
  table holds under \<^verbatim>\<open>default\<close>, no tools and no tool resources.
\<close>

theorem empty_message_uses_defaults:
  assumes settings: "get_settings ev st = (Inr obj, st1, ds1)"
    and api: "agents_api ev
            \<lparr>call_model = PStr ''gpt-4.1'', call_name = PStr ''default-agent'',
              call_instructions = PStr ''You are a helpful AI assistant powered by Azure AI Foundry.'',
              call_tools = [], call_tool_resources = []\<rparr> = Inr agent_id"
  shows "map_of AGENT_PROMPTS ''default'' =
           Some ''You are a helpful AI assistant powered by Azure AI Foundry.''
     \<and> (\<exists>st2 ds. create_agent ev reg (Json_body (PDict [])) st = (Inr (), st2, ds) \<and>
           agent_calls st2 = agent_calls st @
            [\<lparr>call_model = PStr ''gpt-4.1'', call_name = PStr ''default-agent'',
              call_instructions = PStr ''You are a helpful AI assistant powered by Azure AI Foundry.'',
              call_tools = [], call_tool_resources = []\<rparr>])
     \<and> (\<exists>st2 ds. agent_creation_processor ev reg (Json_body (PDict [])) st = (Inr (), st2, ds) \<and>
           agent_calls st2 = agent_calls st @
            [\<lparr>call_model = PStr ''gpt-4.1'', call_name = PStr ''default-agent'',
              call_instructions = PStr ''You are a helpful AI assistant powered by Azure AI Foundry.'',
              call_tools = [], call_tool_resources = []\<rparr>])"
proof -
  have table: "map_of AGENT_PROMPTS ''default'' =
           Some ''You are a helpful AI assistant powered by Azure AI Foundry.''"
    by (simp add: AGENT_PROMPTS_def)
  have f1: "field_or [] ''agent_name'' (PStr ''default-agent'') = PStr ''default-agent''"
    and f2: "field_or [] ''model'' (PStr ''gpt-4.1'') = PStr ''gpt-4.1''"
    and f3: "field_or [] ''tools'' (PList []) = PList []"
    and f4: "legacy_agent_name [] = PStr ''default-agent''"
    by (simp_all add: field_or_def legacy_agent_name_def)
  have ins: "instructions_for [] (PStr ''default-agent'') =
      Inr (PStr ''You are a helpful AI assistant powered by Azure AI Foundry.'')"
    by (simp add: instructions_for_def field_or_def py_or_def default_prompt)
  note tools = resolve_tools_empty[OF settings, of reg]
  have a: "\<exists>st2 ds. create_agent ev reg (Json_body (PDict [])) st = (Inr (), st2, ds) \<and>
           agent_calls st2 = agent_calls st @
            [\<lparr>call_model = PStr ''gpt-4.1'', call_name = PStr ''default-agent'',
              call_instructions = PStr ''You are a helpful AI assistant powered by Azure AI Foundry.'',
              call_tools = [], call_tool_resources = []\<rparr>]"
    using create_agent_ok[of "[]", unfolded f1 f2 f3, OF ins tools api] .
  have b: "\<exists>st2 ds. agent_creation_processor ev reg (Json_body (PDict [])) st = (Inr (), st2, ds) \<and>
           agent_calls st2 = agent_calls st @
            [\<lparr>call_model = PStr ''gpt-4.1'', call_name = PStr ''default-agent'',
              call_instructions = PStr ''You are a helpful AI assistant powered by Azure AI Foundry.'',
              call_tools = [], call_tool_resources = []\<rparr>]"
    using processor_ok[of "[]", unfolded f2 f3 f4, OF ins tools api] .
  from table a b show ?thesis by blast
qed

theorem empty_message_uses_defaults_witness:
  "get_settings example_env initial_state =
     (Inr (0, example_settings), resolved_state,
      [Debug_fetched_secret ''foundry-project-endpoint'',
       Debug_fetched_secret ''ai-search-connection-id'',
       Debug_fetched_secret ''ai-search-index-name'',
       Debug_fetched_secret ''mcp-connection-id''])
   \<and> agents_api example_env
        \<lparr>call_model = PStr ''gpt-4.1'', call_name = PStr ''default-agent'',
              call_instructions = PStr ''You are a helpful AI assistant powered by Azure AI Foundry.'',
              call_tools = [], call_tool_resources = []\<rparr> = Inr ''agent-1''
   \<and> fst (create_agent example_env TOOL_REGISTRY (Json_body (PDict [])) initial_state) = Inr ()
   \<and> agent_calls (fst (snd (create_agent example_env TOOL_REGISTRY (Json_body (PDict [])) initial_state))) =
        [\<lparr>call_model = PStr ''gpt-4.1'', call_name = PStr ''default-agent'',
              call_instructions = PStr ''You are a helpful AI assistant powered by Azure AI Foundry.'',
              call_tools = [], call_tool_resources = []\<rparr>]
   \<and> fst (agent_creation_processor example_env TOOL_REGISTRY (Json_body (PDict [])) initial_state) = Inr ()
   \<and> agent_calls (fst (snd (agent_creation_processor example_env TOOL_REGISTRY (Json_body (PDict []))
        initial_state))) =
        [\<lparr>call_model = PStr ''gpt-4.1'', call_name = PStr ''default-agent'',
              call_instructions = PStr ''You are a helpful AI assistant powered by Azure AI Foundry.'',
              call_tools = [], call_tool_resources = []\<rparr>]"
proof -
  have api: "agents_api example_env
        \<lparr>call_model = PStr ''gpt-4.1'', call_name = PStr ''default-agent'',
              call_instructions = PStr ''You are a helpful AI assistant powered by Azure AI Foundry.'',
              call_tools = [], call_tool_resources = []\<rparr> = Inr ''agent-1''"
    by (simp add: example_env_def)
  have start: "agent_calls initial_state = []" by (simp add: initial_state_def)
  from empty_message_uses_defaults[OF example_get_settings api, of TOOL_REGISTRY] start
    example_get_settings api
  show ?thesis by auto
qed

text \<open>
  Claim C7, as stated, fails for the handler of src/src/function_app.py: on the message
  \<^verbatim>\<open>{"agentName": "doc-bot"}\<close> it names the agent \<^verbatim>\<open>default-agent\<close> and looks the
  prompt up under that name.
\<close>

theorem create_agent_ignores_agentName:
  "map_of [(''agentName'', PStr ''doc-bot'')] ''agent_name'' = None
   \<and> map_of [(''agentName'', PStr ''doc-bot'')] ''agentName'' = Some (PStr ''doc-bot'')
   \<and> fst (create_agent example_env TOOL_REGISTRY
            (Json_body (PDict [(''agentName'', PStr ''doc-bot'')])) initial_state) = Inr ()
   \<and> agent_calls (fst (snd (create_agent example_env TOOL_REGISTRY
            (Json_body (PDict [(''agentName'', PStr ''doc-bot'')])) initial_state))) =
        [\<lparr>call_model = PStr ''gpt-4.1'', call_name = PStr ''default-agent'',
              call_instructions = PStr ''You are a helpful AI assistant powered by Azure AI Foundry.'',
              call_tools = [], call_tool_resources = []\<rparr>]
   \<and> PStr ''default-agent'' \<noteq> PStr ''doc-bot''"
proof -
  have f1: "field_or [(''agentName'', PStr ''doc-bot'')] ''agent_name'' (PStr ''default-agent'') =
      PStr ''default-agent''"
    and f2: "field_or [(''agentName'', PStr ''doc-bot'')] ''model'' (PStr ''gpt-4.1'') = PStr ''gpt-4.1''"
    and f3: "field_or [(''agentName'', PStr ''doc-bot'')] ''tools'' (PList []) = PList []"
    by (simp_all add: field_or_def)
  have ins: "instructions_for [(''agentName'', PStr ''doc-bot'')] (PStr ''default-agent'') =
      Inr (PStr ''You are a helpful AI assistant powered by Azure AI Foundry.'')"
    by (simp add: instructions_for_def field_or_def py_or_def default_prompt)
  have api: "agents_api example_env
        \<lparr>call_model = PStr ''gpt-4.1'', call_name = PStr ''default-agent'',
              call_instructions = PStr ''You are a helpful AI assistant powered by Azure AI Foundry.'',
              call_tools = [], call_tool_resources = []\<rparr> = Inr ''agent-1''"
    by (simp add: example_env_def)
  have start: "agent_calls initial_state = []" by (simp add: initial_state_def)
  from create_agent_ok[of "[(''agentName'', PStr ''doc-bot'')]", unfolded f1 f2 f3,
      OF ins resolve_tools_empty[OF example_get_settings] api, of TOOL_REGISTRY] start
  show ?thesis by auto
qed

text \<open>
  Claim C7, amended. Let a message lack \<^verbatim>\<open>agent_name\<close> and carry \<^verbatim>\<open>agentName\<close> with
  the value \<open>v\<close>. The handler of src/function_app.py sends no create-agent request other
  than one named \<open>v\<close>, with the prompt looked up under \<open>v\<close> when the message has no
  instructions; it sends that request and returns whenever the instructions and the tools
  resolve and the agent service accepts. The handler of src/src/function_app.py does not
  read \<^verbatim>\<open>agentName\<close>: any request it sends is named \<^verbatim>\<open>default-agent\<close>.
\<close>

theorem legacy_agentName_names_the_agent:
  assumes new: "map_of d ''agent_name'' = None" and legacy: "map_of d ''agentName'' = Some v"
  shows "(\<forall>r st1 ds. agent_creation_processor ev reg (Json_body (PDict d)) st = (r, st1, ds) \<longrightarrow>
            (agent_calls st1 = agent_calls st \<and> r \<noteq> Inr ()) \<or>
            (\<exists>c. agent_calls st1 = agent_calls st @ [c] \<and> call_name c = v \<and>
                 (map_of d ''instructions'' = None \<longrightarrow>
                    Inr (call_instructions c) = map_sum id PStr (get_prompt v))))
     \<and> (\<forall>ins tools tr st0 d0 agent_id.
            instructions_for d v = Inr ins \<and>
            resolve_tools ev reg (field_or d ''tools'' (PList [])) st = (Inr (tools, tr), st0, d0) \<and>
            agents_api ev \<lparr>call_model = field_or d ''model'' (PStr ''gpt-4.1''), call_name = v,
                            call_instructions = ins, call_tools = tools,
                            call_tool_resources = tr\<rparr> = Inr agent_id \<longrightarrow>
            (\<exists>st1 ds. agent_creation_processor ev reg (Json_body (PDict d)) st = (Inr (), st1, ds) \<and>
               agent_calls st1 = agent_calls st @
                 [\<lparr>call_model = field_or d ''model'' (PStr ''gpt-4.1''), call_name = v,
                   call_instructions = ins, call_tools = tools, call_tool_resources = tr\<rparr>]))
     \<and> (\<forall>r st1 ds. create_agent ev reg (Json_body (PDict d)) st = (r, st1, ds) \<longrightarrow>
            (agent_calls st1 = agent_calls st \<and> r \<noteq> Inr ()) \<or>
            (\<exists>c. agent_calls st1 = agent_calls st @ [c] \<and> call_name c = PStr ''default-agent''))"
proof -
  have name: "legacy_agent_name d = v"
    using new legacy by (simp add: legacy_agent_name_def field_or_def)
  have dflt: "field_or d ''agent_name'' (PStr ''default-agent'') = PStr ''default-agent''"
    using new by (simp add: field_or_def)
  have absent: "instructions_for d v = map_sum id PStr (get_prompt v)"
    if "map_of d ''instructions'' = None"
    using that by (simp add: instructions_for_def field_or_def py_or_def)
  have one: "(agent_calls st1 = agent_calls st \<and> r \<noteq> Inr ()) \<or>
            (\<exists>c. agent_calls st1 = agent_calls st @ [c] \<and> call_name c = v \<and>
                 (map_of d ''instructions'' = None \<longrightarrow>
                    Inr (call_instructions c) = map_sum id PStr (get_prompt v)))"
    if "agent_creation_processor ev reg (Json_body (PDict d)) st = (r, st1, ds)" for r st1 ds
    using processor_calls[OF that, unfolded name] absent by auto
  have two: "\<exists>st1 ds. agent_creation_processor ev reg (Json_body (PDict d)) st = (Inr (), st1, ds) \<and>
               agent_calls st1 = agent_calls st @
                 [\<lparr>call_model = field_or d ''model'' (PStr ''gpt-4.1''), call_name = v,
                   call_instructions = ins, call_tools = tools, call_tool_resources = tr\<rparr>]"
    if "instructions_for d v = Inr ins"
      "resolve_tools ev reg (field_or d ''tools'' (PList [])) st = (Inr (tools, tr), st0, d0)"
      "agents_api ev \<lparr>call_model = field_or d ''model'' (PStr ''gpt-4.1''), call_name = v,
                            call_instructions = ins, call_tools = tools,
                            call_tool_resources = tr\<rparr> = Inr agent_id"
    for ins tools tr st0 d0 agent_id
    using processor_ok[of d, unfolded name, OF that] .
  have three: "(agent_calls st1 = agent_calls st \<and> r \<noteq> Inr ()) \<or>
            (\<exists>c. agent_calls st1 = agent_calls st @ [c] \<and> call_name c = PStr ''default-agent'')"
    if "create_agent ev reg (Json_body (PDict d)) st = (r, st1, ds)" for r st1 ds
    using create_agent_calls[OF that, unfolded dflt] by auto
  from one two three show ?thesis by blast
qed

theorem legacy_agentName_names_the_agent_witness:
  "map_of [(''agentName'', PStr ''doc-bot'')] ''agent_name'' = None
   \<and> map_of [(''agentName'', PStr ''doc-bot'')] ''agentName'' = Some (PStr ''doc-bot'')
   \<and> map_of [(''agentName'', PStr ''doc-bot'')] ''instructions'' = None
   \<and> fst (agent_creation_processor example_env TOOL_REGISTRY
            (Json_body (PDict [(''agentName'', PStr ''doc-bot'')])) initial_state) = Inr ()
   \<and> agent_calls (fst (snd (agent_creation_processor example_env TOOL_REGISTRY
            (Json_body (PDict [(''agentName'', PStr ''doc-bot'')])) initial_state))) =
        [\<lparr>call_model = PStr ''gpt-4.1'', call_name = PStr ''doc-bot'',
          call_instructions = PStr (''You are a documentation assistant. '' @
             ''Use the connected AI Search index to find relevant documentation, '' @
             ''then provide clear, concise answers with source references. '' @
             ''If the answer is not in the index, say so honestly.''),
          call_tools = [], call_tool_resources = []\<rparr>]"
proof -
  let ?d = "[(''agentName'', PStr ''doc-bot'')]"
  have new: "map_of ?d ''agent_name'' = None" and legacy: "map_of ?d ''agentName'' = Some (PStr ''doc-bot'')"
    and noins: "map_of ?d ''instructions'' = None"
    by simp_all
  have f2: "field_or ?d ''model'' (PStr ''gpt-4.1'') = PStr ''gpt-4.1''"
    and f3: "field_or ?d ''tools'' (PList []) = PList []"
    by (simp_all add: field_or_def)
  have ins: "instructions_for ?d (PStr ''doc-bot'') =
      Inr (PStr (''You are a documentation assistant. '' @
             ''Use the connected AI Search index to find relevant documentation, '' @
             ''then provide clear, concise answers with source references. '' @
             ''If the answer is not in the index, say so honestly.''))"
    by (simp add: instructions_for_def field_or_def py_or_def doc_bot_prompt)
  have api: "agents_api example_env c = Inr ''agent-1''" for c
    by (simp add: example_env_def)
  have start: "agent_calls initial_state = []" by (simp add: initial_state_def)
  note inst = legacy_agentName_names_the_agent[OF new legacy, of example_env TOOL_REGISTRY initial_state,
      unfolded f2 f3]
  from inst ins resolve_tools_empty[OF example_get_settings, of TOOL_REGISTRY] api
  obtain st1 ds where
    "agent_creation_processor example_env TOOL_REGISTRY (Json_body (PDict ?d)) initial_state =
       (Inr (), st1, ds)"
    "agent_calls st1 = agent_calls initial_state @
        [\<lparr>call_model = PStr ''gpt-4.1'', call_name = PStr ''doc-bot'',
          call_instructions = PStr (''You are a documentation assistant. '' @
             ''Use the connected AI Search index to find relevant documentation, '' @
             ''then provide clear, concise answers with source references. '' @
             ''If the answer is not in the index, say so honestly.''),
          call_tools = [], call_tool_resources = []\<rparr>]"
    by blast
  with start new legacy noins show ?thesis by simp
qed

text \<open>
  Claim C8. On a body that is not valid JSON the handler of src/function_app.py logs the
  decode failure and re-raises it; the handler of src/src/function_app.py logs it and
  returns normally. Neither changes the state, so neither sends a create-agent request.
\<close>

theorem malformed_json_policies:
  "agent_creation_processor ev reg Invalid_json st =
     (Inl JSONDecodeError, st,
      [Info_job_received, Info_queue_message, Error_invalid_json JSONDecodeError])
   \<and> create_agent ev reg Invalid_json st =
     (Inr (), st, [Info_job_received, Error_invalid_format JSONDecodeError])
   \<and> agent_calls (fst (snd (agent_creation_processor ev reg Invalid_json st))) = agent_calls st
   \<and> agent_calls (fst (snd (create_agent ev reg Invalid_json st))) = agent_calls st"
  by (simp add: agent_creation_processor_def processor_body_def create_agent_def and_then_def
      emit_def lift_def decode_body_def json_loads_def except_diagnostic_def)

text \<open>
  Claim C9. With the secret client available, \<open>get_secret\<close> called with
  \<open>use_cache = False\<close> sends one request for the name to the store whatever the cache
  holds. When the store answers with a value, the call returns it and stores it under
  the name, and a following call with \<open>use_cache = True\<close> returns that same value and
  changes nothing: in particular it sends no request, whatever the store would now say.
\<close>

theorem uncached_fetch_refreshes_cache:
  assumes client: "client_available ev st"
  shows "store_calls (fst (snd (get_secret ev name False st))) = store_calls st @ [name]
     \<and> (\<forall>sv. vault ev name = Inr sv \<longrightarrow>
          (\<exists>st1 ds. get_secret ev name False st = (Inr (case sv of None \<Rightarrow> [] | Some x \<Rightarrow> x), st1, ds)
             \<and> map_of (secret_cache st1) name = Some (case sv of None \<Rightarrow> [] | Some x \<Rightarrow> x)
             \<and> get_secret ev' name True st1 = (Inr (case sv of None \<Rightarrow> [] | Some x \<Rightarrow> x), st1, [])))"
proof -
  from get_client_ok[OF client] obtain c where
    gc: "get_client ev st = (Inr c, st\<lparr>client_cache := Some c\<rparr>, [])" by blast
  note run = get_secret_miss[OF _ gc, of False name, simplified]
  have first: "store_calls (fst (snd (get_secret ev name False st))) = store_calls st @ [name]"
    by (cases "vault ev name") (simp_all add: run)
  have second: "\<exists>st1 ds. get_secret ev name False st = (Inr (case sv of None \<Rightarrow> [] | Some x \<Rightarrow> x), st1, ds)
             \<and> map_of (secret_cache st1) name = Some (case sv of None \<Rightarrow> [] | Some x \<Rightarrow> x)
             \<and> get_secret ev' name True st1 = (Inr (case sv of None \<Rightarrow> [] | Some x \<Rightarrow> x), st1, [])"
    if sv: "vault ev name = Inr sv" for sv
  proof -
    let ?v = "case sv of None \<Rightarrow> [] | Some x \<Rightarrow> x"
    let ?st1 = "st\<lparr>client_cache := Some c, store_calls := store_calls st @ [name],
                   secret_cache := dict_set name ?v (secret_cache st)\<rparr>"
    have r: "get_secret ev name False st = (Inr ?v, ?st1, [Debug_fetched_secret name])"
      by (simp add: run sv)
    have cached: "map_of (secret_cache ?st1) name = Some ?v"
      by (simp add: map_of_dict_set)
    from r cached get_secret_hit[OF cached, of ev'] show ?thesis by blast
  qed
  from first second show ?thesis by blast
qed

theorem uncached_fetch_refreshes_cache_witness:
  "client_available rotated_env resolved_state
   \<and> vault rotated_env KV_MCP_CONNECTION_ID = Inr (Some ''rotated'')
   \<and> map_of (secret_cache resolved_state) KV_MCP_CONNECTION_ID = Some ''value-of-mcp-connection-id''
   \<and> fst (get_secret rotated_env KV_MCP_CONNECTION_ID False resolved_state) = Inr ''rotated''
   \<and> store_calls (fst (snd (get_secret rotated_env KV_MCP_CONNECTION_ID False resolved_state))) =
       store_calls resolved_state @ [''mcp-connection-id'']
   \<and> get_secret failing_env KV_MCP_CONNECTION_ID True
        (fst (snd (get_secret rotated_env KV_MCP_CONNECTION_ID False resolved_state))) =
       (Inr ''rotated'', fst (snd (get_secret rotated_env KV_MCP_CONNECTION_ID False resolved_state)), [])"
proof -
  have client: "client_available rotated_env resolved_state"
    by (simp add: client_available_def resolved_state_def)
  have sv: "vault rotated_env KV_MCP_CONNECTION_ID = Inr (Some ''rotated'')"
    by (simp add: rotated_env_def)
  have old: "map_of (secret_cache resolved_state) KV_MCP_CONNECTION_ID = Some ''value-of-mcp-connection-id''"
    by (simp add: resolved_state_def KV_MCP_CONNECTION_ID_def)
  note inst = uncached_fetch_refreshes_cache[OF client, of KV_MCP_CONNECTION_ID failing_env]
  from inst sv obtain st1 ds where
    r: "get_secret rotated_env KV_MCP_CONNECTION_ID False resolved_state = (Inr ''rotated'', st1, ds)"
    and again: "get_secret failing_env KV_MCP_CONNECTION_ID True st1 = (Inr ''rotated'', st1, [])"
    by auto
  from inst have calls: "store_calls (fst (snd (get_secret rotated_env KV_MCP_CONNECTION_ID False resolved_state))) =
       store_calls resolved_state @ [KV_MCP_CONNECTION_ID]" by blast
  from client sv old r again calls show ?thesis
    by (simp add: KV_MCP_CONNECTION_ID_def)
qed

text \<open>
  Claim C10. A message whose \<^verbatim>\<open>instructions\<close> field is present with a falsy value is
  handled by either handler exactly as the same message without the field: same result,
  same state, same diagnostics. Any create-agent request the handler then sends carries
  the prompt that \<open>get_prompt\<close> returns for the name the request carries.
\<close>

theorem falsy_instructions_fall_back:
  assumes present: "map_of d ''instructions'' = Some v" and falsy: "\<not> truthy v"
  shows "create_agent ev reg (Json_body (PDict d)) st =
           create_agent ev reg (Json_body (PDict (dict_del ''instructions'' d))) st
     \<and> agent_creation_processor ev reg (Json_body (PDict d)) st =
           agent_creation_processor ev reg (Json_body (PDict (dict_del ''instructions'' d))) st
     \<and> (\<forall>r st1 ds. create_agent ev reg (Json_body (PDict d)) st = (r, st1, ds) \<longrightarrow>
            (agent_calls st1 = agent_calls st \<and> r \<noteq> Inr ()) \<or>
            (\<exists>c. agent_calls st1 = agent_calls st @ [c] \<and>
                 Inr (call_instructions c) = map_sum id PStr (get_prompt (call_name c))))
     \<and> (\<forall>r st1 ds. agent_creation_processor ev reg (Json_body (PDict d)) st = (r, st1, ds) \<longrightarrow>
            (agent_calls st1 = agent_calls st \<and> r \<noteq> Inr ()) \<or>
            (\<exists>c. agent_calls st1 = agent_calls st @ [c] \<and>
                 Inr (call_instructions c) = map_sum id PStr (get_prompt (call_name c))))"
proof -
  have ins: "instructions_for d an = map_sum id PStr (get_prompt an)" for an
    using present falsy by (simp add: instructions_for_def field_or_def py_or_def)
  have ins': "instructions_for (dict_del ''instructions'' d) an = map_sum id PStr (get_prompt an)" for an
    by (simp add: instructions_for_def field_or_dict_del py_or_def)
  have name: "legacy_agent_name (dict_del ''instructions'' d) = legacy_agent_name d"
    by (simp add: legacy_agent_name_def field_or_dict_del)
  have f1: "field_or (dict_del ''instructions'' d) ''agent_name'' x = field_or d ''agent_name'' x"
    and f2: "field_or (dict_del ''instructions'' d) ''model'' x = field_or d ''model'' x"
    and f3: "field_or (dict_del ''instructions'' d) ''tools'' x = field_or d ''tools'' x" for x
    by (simp_all add: field_or_dict_del)
  have a: "create_agent ev reg (Json_body (PDict d)) st =
           create_agent ev reg (Json_body (PDict (dict_del ''instructions'' d))) st"
    by (simp only: create_agent_dict_run ins ins' f1 f2 f3)
  have b: "agent_creation_processor ev reg (Json_body (PDict d)) st =
           agent_creation_processor ev reg (Json_body (PDict (dict_del ''instructions'' d))) st"
    by (simp only: processor_dict_run ins ins' name f1 f2 f3)
  have c: "(agent_calls st1 = agent_calls st \<and> r \<noteq> Inr ()) \<or>
            (\<exists>c. agent_calls st1 = agent_calls st @ [c] \<and>
                 Inr (call_instructions c) = map_sum id PStr (get_prompt (call_name c)))"
    if "create_agent ev reg (Json_body (PDict d)) st = (r, st1, ds)" for r st1 ds
    using create_agent_calls[OF that] by (auto simp: ins)
  have e: "(agent_calls st1 = agent_calls st \<and> r \<noteq> Inr ()) \<or>
            (\<exists>c. agent_calls st1 = agent_calls st @ [c] \<and>
                 Inr (call_instructions c) = map_sum id PStr (get_prompt (call_name c)))"
    if "agent_creation_processor ev reg (Json_body (PDict d)) st = (r, st1, ds)" for r st1 ds
    using processor_calls[OF that] by (auto simp: ins)
  from a b c e show ?thesis by blast
qed

theorem falsy_instructions_fall_back_witness:
  "map_of [(''agent_name'', PStr ''doc-bot''), (''instructions'', PStr [])] ''instructions'' = Some (PStr [])
   \<and> \<not> truthy (PStr [])
   \<and> dict_del ''instructions'' [(''agent_name'', PStr ''doc-bot''), (''instructions'', PStr [])] =
       [(''agent_name'', PStr ''doc-bot'')]
   \<and> create_agent example_env TOOL_REGISTRY
        (Json_body (PDict [(''agent_name'', PStr ''doc-bot''), (''instructions'', PStr [])])) initial_state =
     create_agent example_env TOOL_REGISTRY
        (Json_body (PDict [(''agent_name'', PStr ''doc-bot'')])) initial_state
   \<and> agent_creation_processor example_env TOOL_REGISTRY
        (Json_body (PDict [(''agent_name'', PStr ''doc-bot''), (''instructions'', PStr [])])) initial_state =
     agent_creation_processor example_env TOOL_REGISTRY
        (Json_body (PDict [(''agent_name'', PStr ''doc-bot'')])) initial_state
   \<and> agent_calls (fst (snd (create_agent example_env TOOL_REGISTRY
        (Json_body (PDict [(''agent_name'', PStr ''doc-bot''), (''instructions'', PStr [])]))
        initial_state))) =
       [\<lparr>call_model = PStr ''gpt-4.1'', call_name = PStr ''doc-bot'',
         call_instructions = PStr (''You are a documentation assistant. '' @
             ''Use the connected AI Search index to find relevant documentation, '' @
             ''then provide clear, concise answers with source references. '' @
             ''If the answer is not in the index, say so honestly.''),
         call_tools = [], call_tool_resources = []\<rparr>]
   \<and> agent_calls (fst (snd (agent_creation_processor example_env TOOL_REGISTRY
        (Json_body (PDict [(''agent_name'', PStr ''doc-bot''), (''instructions'', PStr [])]))
        initial_state))) =
       [\<lparr>call_model = PStr ''gpt-4.1'', call_name = PStr ''doc-bot'',
         call_instructions = PStr (''You are a documentation assistant. '' @
             ''Use the connected AI Search index to find relevant documentation, '' @
             ''then provide clear, concise answers with source references. '' @
             ''If the answer is not in the index, say so honestly.''),
         call_tools = [], call_tool_resources = []\<rparr>]"
proof -
  let ?d = "[(''agent_name'', PStr ''doc-bot''), (''instructions'', PStr [])]"
  have present: "map_of ?d ''instructions'' = Some (PStr [])" and falsy: "\<not> truthy (PStr [])"
    and del: "dict_del ''instructions'' ?d = [(''agent_name'', PStr ''doc-bot'')]"
    by simp_all
  have f1: "field_or ?d ''agent_name'' (PStr ''default-agent'') = PStr ''doc-bot''"
    and f2: "field_or ?d ''model'' (PStr ''gpt-4.1'') = PStr ''gpt-4.1''"
    and f3: "field_or ?d ''tools'' (PList []) = PList []"
    and f4: "legacy_agent_name ?d = PStr ''doc-bot''"
    by (simp_all add: field_or_def legacy_agent_name_def)
  have ins: "instructions_for ?d (PStr ''doc-bot'') = Inr (PStr (''You are a documentation assistant. '' @
             ''Use the connected AI Search index to find relevant documentation, '' @
             ''then provide clear, concise answers with source references. '' @
             ''If the answer is not in the index, say so honestly.''))"
    by (simp add: instructions_for_def field_or_def py_or_def doc_bot_prompt)
  have api: "agents_api example_env c = Inr ''agent-1''" for c
    by (simp add: example_env_def)
  have start: "agent_calls initial_state = []" by (simp add: initial_state_def)
  note tools = resolve_tools_empty[OF example_get_settings, of TOOL_REGISTRY]
  from create_agent_ok[of ?d, unfolded f1 f2 f3, OF ins tools api] start
  have one: "agent_calls (fst (snd (create_agent example_env TOOL_REGISTRY (Json_body (PDict ?d))
        initial_state))) =
       [\<lparr>call_model = PStr ''gpt-4.1'', call_name = PStr ''doc-bot'',
         call_instructions = PStr (''You are a documentation assistant. '' @
             ''Use the connected AI Search index to find relevant documentation, '' @
             ''then provide clear, concise answers with source references. '' @
             ''If the answer is not in the index, say so honestly.''),
         call_tools = [], call_tool_resources = []\<rparr>]"
    by auto
  from processor_ok[of ?d, unfolded f2 f3 f4, OF ins tools api] start
  have two: "agent_calls (fst (snd (agent_creation_processor example_env TOOL_REGISTRY (Json_body (PDict ?d))
        initial_state))) =
       [\<lparr>call_model = PStr ''gpt-4.1'', call_name = PStr ''doc-bot'',
         call_instructions = PStr (''You are a documentation assistant. '' @
             ''Use the connected AI Search index to find relevant documentation, '' @
             ''then provide clear, concise answers with source references. '' @
             ''If the answer is not in the index, say so honestly.''),
         call_tools = [], call_tool_resources = []\<rparr>]"
    by auto
  note inst = falsy_instructions_fall_back[OF present falsy, of example_env TOOL_REGISTRY initial_state,
      unfolded del]
  from inst have same: "create_agent example_env TOOL_REGISTRY (Json_body (PDict ?d)) initial_state =
      create_agent example_env TOOL_REGISTRY (Json_body (PDict [(''agent_name'', PStr ''doc-bot'')]))
        initial_state"
    "agent_creation_processor example_env TOOL_REGISTRY (Json_body (PDict ?d)) initial_state =
      agent_creation_processor example_env TOOL_REGISTRY
        (Json_body (PDict [(''agent_name'', PStr ''doc-bot'')])) initial_state"
    by blast+
  show ?thesis
    by (intro conjI present falsy del same one two)
qed

end
